theory Spec2Isabelle
  imports Main "HOL-Library.AList" "HOL-Library.Word"
begin

section \<open>Reservation records (package queue)\<close>

text \<open>
  The six values of \<open>QueueStatus\<close> and the \<open>QueueItem\<close> struct. Instants of
  \<open>time.Time\<close> are integers (nanoseconds on one time line), text is \<open>string\<close>.
\<close>

datatype QueueStatus =
  StatusPending | StatusGenerating | StatusError | StatusAvailable | StatusShutdown | StatusTerminated

record QueueItem =
  Owner :: string
  K8sVersion :: string
  Status :: QueueStatus
  ErrorMessage :: string
  StatusUpdatedAt :: int
  PodID :: string
  ExpiresAt :: int
  ID :: string
  DisplayName :: string
  WorkloadType :: string

type_synonym error = string

section \<open>The world the controllers act on\<close>

text \<open>
  Everything outside the process is one explicit state: the Redis hash \<open>k8s_playground_queue\<close>
  (an association list from id to record; \<open>HGetAll\<close> returns it in the list's order), the
  objects of the outer cluster, the clock (\<open>clock w n\<close> is what the \<open>n\<close>-th call of
  \<open>time.Now()\<close> returns, \<open>reads w\<close> counts the calls made so far), and the answers the
  backends are going to give: \<open>redis_errs\<close> holds the outcome of each coming Redis command
  and \<open>api_errs\<close> of each coming call of the outer API (\<open>None\<close>: the call goes through,
  \<open>Some e\<close>: it fails with message \<open>e\<close>; an exhausted list means no more failures).
  \<open>trace\<close> records the writes and deletions in the order they were attempted.
\<close>

datatype kind = StatefulSets | Deployments | Services | PersistentVolumeClaims

datatype api_result = Deleted | NotFound | Failed error

datatype event =
    HSet QueueItem "error option"
  | HDel string "error option"
  | ApiDelete kind string string api_result

record world =
  store :: "(string \<times> QueueItem) list"
  objects :: "(kind \<times> string \<times> string) list"
  clock :: "nat \<Rightarrow> int"
  reads :: nat
  redis_errs :: "error option list"
  api_errs :: "error option list"
  trace :: "event list"

definition time_Now :: "world \<Rightarrow> int \<times> world" where
  "time_Now w = (clock w (reads w), w\<lparr>reads := Suc (reads w)\<rparr>)"

definition redis_call :: "world \<Rightarrow> error option \<times> world" where
  "redis_call w =
     (case redis_errs w of [] \<Rightarrow> (None, w) | r # rs \<Rightarrow> (r, w\<lparr>redis_errs := rs\<rparr>))"

definition api_call :: "world \<Rightarrow> error option \<times> world" where
  "api_call w =
     (case api_errs w of [] \<Rightarrow> (None, w) | r # rs \<Rightarrow> (r, w\<lparr>api_errs := rs\<rparr>))"

section \<open>The work queue (RedisQueue)\<close>

text \<open>
  The table holds records, not their JSON: marshalling a \<open>QueueItem\<close> cannot fail, and a
  field that does not unmarshal is skipped by \<open>GetAllItems\<close>, so it is not in the table of
  the model. \<open>AddItem\<close>: a record without id gets the UUID that \<open>uuid.New()\<close> draws (the
  parameter \<open>fresh\<close>), then \<open>HSet\<close>. The record is passed by pointer in the source, so
  every operation returns it as the caller sees it afterwards.
\<close>

definition AddItem :: "string \<Rightarrow> QueueItem \<Rightarrow> world \<Rightarrow> error option \<times> QueueItem \<times> world" where
  "AddItem fresh item w =
     (let item1 = (if ID item = [] then item\<lparr>ID := fresh\<rparr> else item);
          (r, w1) = redis_call w;
          w2 = w1\<lparr>trace := trace w1 @ [HSet item1 r]\<rparr>
      in case r of
           None \<Rightarrow> (None, item1, w2\<lparr>store := AList.update (ID item1) item1 (store w2)\<rparr>)
         | Some e \<Rightarrow> (Some e, item1, w2))"

definition GetItem :: "string \<Rightarrow> world \<Rightarrow> (error + QueueItem) \<times> world" where
  "GetItem ident w =
     (let (r, w1) = redis_call w
      in case r of
           Some e \<Rightarrow> (Inl (''failed to get queue item: '' @ e), w1)
         | None \<Rightarrow>
             (case map_of (store w1) ident of
                None \<Rightarrow> (Inl ''item not found'', w1)
              | Some item \<Rightarrow> (Inr item, w1)))"

text \<open>\<open>UpdateItem\<close> stamps the record with \<open>time.Now()\<close> and overwrites the hash field.\<close>

definition UpdateItem :: "QueueItem \<Rightarrow> world \<Rightarrow> error option \<times> QueueItem \<times> world" where
  "UpdateItem item w =
     (let (now, w1) = time_Now w;
          item1 = item\<lparr>StatusUpdatedAt := now\<rparr>;
          (r, w2) = redis_call w1;
          w3 = w2\<lparr>trace := trace w2 @ [HSet item1 r]\<rparr>
      in case r of
           None \<Rightarrow> (None, item1, w3\<lparr>store := AList.update (ID item1) item1 (store w3)\<rparr>)
         | Some e \<Rightarrow> (Some e, item1, w3))"

definition GetAllItems :: "world \<Rightarrow> (error + QueueItem list) \<times> world" where
  "GetAllItems w =
     (let (r, w1) = redis_call w
      in case r of
           Some e \<Rightarrow> (Inl (''failed to get all queue items: '' @ e), w1)
         | None \<Rightarrow> (Inr (map snd (store w1)), w1))"

definition GetItemsByStatus :: "QueueStatus \<Rightarrow> world \<Rightarrow> (error + QueueItem list) \<times> world" where
  "GetItemsByStatus status w =
     (case GetAllItems w of
        (Inl e, w1) \<Rightarrow> (Inl e, w1)
      | (Inr allItems, w1) \<Rightarrow> (Inr (filter (\<lambda>item. Status item = status) allItems), w1))"

definition GetItemsByOwner :: "string \<Rightarrow> world \<Rightarrow> (error + QueueItem list) \<times> world" where
  "GetItemsByOwner owner w =
     (case GetAllItems w of
        (Inl e, w1) \<Rightarrow> (Inl e, w1)
      | (Inr allItems, w1) \<Rightarrow> (Inr (filter (\<lambda>item. Owner item = owner) allItems), w1))"

definition DeleteItem :: "string \<Rightarrow> world \<Rightarrow> error option \<times> world" where
  "DeleteItem ident w =
     (let (r, w1) = redis_call w;
          w2 = w1\<lparr>trace := trace w1 @ [HDel ident r]\<rparr>
      in case r of
           None \<Rightarrow> (None, w2\<lparr>store := AList.delete ident (store w2)\<rparr>)
         | Some e \<Rightarrow> (Some e, w2))"

text \<open>
  The two steps of \<open>UpdateItem\<close>, for writers that run side by side: the caller's record is
  stamped with \<open>time.Now()\<close>, then the stamped record is sent with \<open>HSet\<close>. Nothing holds
  the table between the two. \<open>interleaved a b w\<close> is the run in which one writer stamps
  \<open>a\<close>, a second writer stamps \<open>b\<close> and sends it, and the first writer then sends
  \<open>a\<close>; it returns the world after each \<open>HSet\<close>.
\<close>

definition UpdateItem_stamp :: "QueueItem \<Rightarrow> world \<Rightarrow> QueueItem \<times> world" where
  "UpdateItem_stamp item w =
     (let (now, w1) = time_Now w in (item\<lparr>StatusUpdatedAt := now\<rparr>, w1))"

definition UpdateItem_HSet :: "QueueItem \<Rightarrow> world \<Rightarrow> error option \<times> QueueItem \<times> world" where
  "UpdateItem_HSet stamped w1 =
     (let (r, w2) = redis_call w1;
          w3 = w2\<lparr>trace := trace w2 @ [HSet stamped r]\<rparr>
      in case r of
           None \<Rightarrow> (None, stamped, w3\<lparr>store := AList.update (ID stamped) stamped (store w3)\<rparr>)
         | Some e \<Rightarrow> (Some e, stamped, w3))"

definition interleaved :: "QueueItem \<Rightarrow> QueueItem \<Rightarrow> world \<Rightarrow> world \<times> world" where
  "interleaved a b w =
     (let (a1, w1) = UpdateItem_stamp a w;
          (b1, w2) = UpdateItem_stamp b w1;
          (rb, b2, w3) = UpdateItem_HSet b1 w2;
          (ra, a2, w4) = UpdateItem_HSet a1 w3
      in (w3, w4))"

section \<open>The outer cluster (package k8s)\<close>

text \<open>
  A delete call of the outer API: it fails with the environment's error, or answers
  \<open>NotFound\<close> when no object of that kind, namespace and name exists, or removes it.
\<close>

definition api_delete :: "kind \<Rightarrow> string \<Rightarrow> string \<Rightarrow> world \<Rightarrow> api_result \<times> world" where
  "api_delete k ns name w =
     (let (r, w1) = api_call w;
          res = (case r of
                   Some e \<Rightarrow> Failed e
                 | None \<Rightarrow> if (k, ns, name) \<in> set (objects w1) then Deleted else NotFound);
          w2 = w1\<lparr>trace := trace w1 @ [ApiDelete k ns name res]\<rparr>
      in (res, if res = Deleted then w2\<lparr>objects := removeAll (k, ns, name) (objects w2)\<rparr> else w2))"

text \<open>\<open>err != nil && !apierrors.IsNotFound(err)\<close>: only a failure other than NotFound is returned.\<close>

definition DeleteDinDStatefulSet :: "string \<Rightarrow> string \<Rightarrow> world \<Rightarrow> error option \<times> world" where
  "DeleteDinDStatefulSet name ns w =
     (case api_delete StatefulSets ns name w of
        (Failed e, w1) \<Rightarrow> (Some (''failed to delete statefulset '' @ name @ '': '' @ e), w1)
      | (_, w1) \<Rightarrow>
          (case api_delete Services ns name w1 of
             (Failed e, w2) \<Rightarrow> (Some (''failed to delete service '' @ name @ '': '' @ e), w2)
           | (_, w2) \<Rightarrow>
               (let pvcName = ''docker-graph-storage-'' @ name @ ''-0''
                in case api_delete PersistentVolumeClaims ns pvcName w2 of
                     (Failed e, w3) \<Rightarrow> (Some (''failed to delete pvc '' @ pvcName @ '': '' @ e), w3)
                   | (_, w3) \<Rightarrow> (None, w3))))"

definition DeleteDinDDeployment :: "string \<Rightarrow> string \<Rightarrow> world \<Rightarrow> error option \<times> world" where
  "DeleteDinDDeployment name ns w =
     (case api_delete Deployments ns name w of
        (Failed e, w1) \<Rightarrow> (Some (''failed to delete deployment '' @ name @ '': '' @ e), w1)
      | (_, w1) \<Rightarrow>
          (case api_delete Services ns name w1 of
             (Failed e, w2) \<Rightarrow> (Some (''failed to delete service '' @ name @ '': '' @ e), w2)
           | (_, w2) \<Rightarrow> (None, w2)))"

section \<open>The Killer (killer-controller)\<close>

definition processShutdownItem :: "QueueItem \<Rightarrow> string \<Rightarrow> world \<Rightarrow> error option \<times> QueueItem \<times> world" where
  "processShutdownItem item ns w =
     (case UpdateItem (item\<lparr>Status := StatusTerminated\<rparr>) w of
        (Some e, item1, w1) \<Rightarrow>
          (Some (''failed to update item status to terminating: '' @ e), item1, w1)
      | (None, item1, w1) \<Rightarrow>
          if PodID item1 \<noteq> [] then
            (let (err, w2) =
                   (if WorkloadType item1 = ''deployment''
                    then DeleteDinDDeployment (PodID item1) ns w1
                    else DeleteDinDStatefulSet (PodID item1) ns w1)
             in (None, item1, w2))
          else (None, item1, w1))"

text \<open>The body of the loop of \<open>processShutdownItems\<close>, and the loop.\<close>

definition processShutdownItems_body :: "string \<Rightarrow> QueueItem \<Rightarrow> world \<Rightarrow> world" where
  "processShutdownItems_body ns item w =
     (case processShutdownItem item ns w of
        (None, item1, w1) \<Rightarrow> w1
      | (Some e, item1, w1) \<Rightarrow>
          snd (snd (UpdateItem (item1\<lparr>Status := StatusError, ErrorMessage := e\<rparr>) w1)))"

definition processShutdownItems :: "string \<Rightarrow> world \<Rightarrow> error option \<times> world" where
  "processShutdownItems ns w =
     (case GetItemsByStatus StatusShutdown w of
        (Inl e, w1) \<Rightarrow> (Some (''failed to get shutdown items: '' @ e), w1)
      | (Inr shutdownItems, w1) \<Rightarrow> (None, fold (processShutdownItems_body ns) shutdownItems w1))"

section \<open>The Collector (collector-controller)\<close>

definition IsExpired :: "QueueItem \<Rightarrow> world \<Rightarrow> bool \<times> world" where
  "IsExpired q w = (let (now, w1) = time_Now w in (ExpiresAt q < now, w1))"

definition ShouldBeCollected :: "QueueItem \<Rightarrow> world \<Rightarrow> bool \<times> world" where
  "ShouldBeCollected q w =
     (if Status q \<in> set [StatusShutdown, StatusTerminated, StatusError] then (False, w)
      else IsExpired q w)"

definition terminatedGracePeriod :: int where
  "terminatedGracePeriod = 5 * (60 * 1000000000)"

text \<open>The body of the loop of \<open>cleanupItems\<close> (\<open>now\<close> is read once, before the loop).\<close>

definition cleanupItems_body :: "int \<Rightarrow> QueueItem \<Rightarrow> world \<Rightarrow> world" where
  "cleanupItems_body now item w =
     (case ShouldBeCollected item w of
        (True, w1) \<Rightarrow>
          (case UpdateItem (item\<lparr>Status := StatusShutdown\<rparr>) w1 of
             (None, item1, w2) \<Rightarrow> w2
           | (Some e, item1, w2) \<Rightarrow>
               snd (snd (UpdateItem
                 (item1\<lparr>Status := StatusError,
                         ErrorMessage := ''Failed to mark for shutdown during collection''\<rparr>) w2)))
      | (False, w1) \<Rightarrow>
          if Status item = StatusTerminated then
            (if now - StatusUpdatedAt item > terminatedGracePeriod
             then snd (DeleteItem (ID item) w1) else w1)
          else w1)"

definition cleanupItems :: "world \<Rightarrow> error option \<times> world" where
  "cleanupItems w =
     (case GetAllItems w of
        (Inl e, w1) \<Rightarrow> (Some e, w1)
      | (Inr allItems, w1) \<Rightarrow>
          (let (now, w2) = time_Now w1 in (None, fold (cleanupItems_body now) allItems w2)))"

section \<open>The Generator (generator-controller)\<close>

text \<open>
  The calls the Generator makes to the outer cluster. Creating an object fails with the
  environment's error or because the object exists (\<open>AlreadyExists\<close>), or adds it. The pod
  template built by the source is not kept: the model of the cluster holds kind, namespace
  and name, and the directory name \<open>sanitizeName(ownerID)\<close> that \<open>EnsureNFSDirectory\<close>
  returns enters that template only. Reading the NFS service and running \<open>mkdir\<close> on the
  NFS server are one call of the outer API each; \<open>nfs_ip\<close> is the ClusterIP the service
  has. A create call that finds the object answers \<open>AlreadyExists\<close>, which the source
  tolerates for the service only.
\<close>

datatype create_result = Created | AlreadyExists | CreateFailed error

definition api_create :: "kind \<Rightarrow> string \<Rightarrow> string \<Rightarrow> world \<Rightarrow> create_result \<times> world" where
  "api_create k ns name w =
     (let (r, w1) = api_call w
      in case r of
           Some e \<Rightarrow> (CreateFailed e, w1)
         | None \<Rightarrow>
             if (k, ns, name) \<in> set (objects w1) then (AlreadyExists, w1)
             else (Created, w1\<lparr>objects := objects w1 @ [(k, ns, name)]\<rparr>))"

definition GetServiceClusterIP :: "string \<Rightarrow> string \<Rightarrow> string \<Rightarrow> world \<Rightarrow> (error + string) \<times> world" where
  "GetServiceClusterIP nfs_ip name ns w =
     (let (r, w1) = api_call w
      in case r of
           Some e \<Rightarrow>
             (Inl (''failed to get service '' @ name @ '' in namespace '' @ ns @ '': '' @ e), w1)
         | None \<Rightarrow>
             if nfs_ip = [] \<or> nfs_ip = ''None''
             then (Inl (''service '' @ name @ '' does not have a ClusterIP''), w1)
             else (Inr nfs_ip, w1))"

definition EnsureNFSDirectory :: "string \<Rightarrow> string \<Rightarrow> world \<Rightarrow> error option \<times> world" where
  "EnsureNFSDirectory ns ownerID w =
     (let (r, w1) = api_call w
      in case r of
           Some e \<Rightarrow> (Some (''failed to exec mkdir on nfs-server: '' @ e), w1)
         | None \<Rightarrow> (None, w1))"

definition CreateDinDStatefulSet :: "string \<Rightarrow> string \<Rightarrow> world \<Rightarrow> (error + string) \<times> world" where
  "CreateDinDStatefulSet name ns w =
     (case api_create Services ns name w of
        (CreateFailed e, w1) \<Rightarrow> (Inl (''failed to create headless service: '' @ e), w1)
      | (_, w1) \<Rightarrow>
          (case api_create StatefulSets ns name w1 of
             (Created, w2) \<Rightarrow> (Inr (name @ ''-0''), w2)
           | (AlreadyExists, w2) \<Rightarrow>
               (Inl ''failed to create statefulset: already exists'',
                snd (api_delete Services ns name w2))
           | (CreateFailed e, w2) \<Rightarrow>
               (Inl (''failed to create statefulset: '' @ e), snd (api_delete Services ns name w2))))"

definition CreateDinDDeployment :: "string \<Rightarrow> string \<Rightarrow> world \<Rightarrow> (error + string) \<times> world" where
  "CreateDinDDeployment name ns w =
     (case api_create Services ns name w of
        (CreateFailed e, w1) \<Rightarrow> (Inl (''failed to create service for deployment: '' @ e), w1)
      | (_, w1) \<Rightarrow>
          (case api_create Deployments ns name w1 of
             (Created, w2) \<Rightarrow> (Inr name, w2)
           | (AlreadyExists, w2) \<Rightarrow>
               (Inl ''failed to create deployment: already exists'',
                snd (api_delete Services ns name w2))
           | (CreateFailed e, w2) \<Rightarrow>
               (Inl (''failed to create deployment: '' @ e), snd (api_delete Services ns name w2))))"

text \<open>
  The configuration of the Generator: the image repository and the map from Kubernetes
  version to image tag (\<open>DIND_IMAGE_VERSIONS_JSON\<close>), an association list whose order
  stands for the order in which Go ranges over the map. \<open>fmt_strings\<close> is how \<open>%v\<close>
  prints a slice of strings.
\<close>

record generator_config =
  dindImageBaseRepository :: string
  dindImageVersions :: "(string \<times> string) list"
  nfs_cluster_ip :: string

definition getMapKeys :: "(string \<times> string) list \<Rightarrow> string list" where
  "getMapKeys m = map fst m"

fun join_with :: "string \<Rightarrow> string list \<Rightarrow> string" where
  "join_with sep [] = []"
| "join_with sep [x] = x"
| "join_with sep (x # y # ys) = x @ sep @ join_with sep (y # ys)"

definition fmt_strings :: "string list \<Rightarrow> string" where
  "fmt_strings xs = ''['' @ join_with '' '' xs @ '']''"

text \<open>The error for a version that the map does not have, with \<open>%v\<close> of the map's keys.\<close>

definition unsupportedVersion :: "generator_config \<Rightarrow> string \<Rightarrow> error" where
  "unsupportedVersion cfg version =
     ''unsupported k8s version for DinD image: '' @ version @
     ''. Check DIND_IMAGE_VERSIONS_JSON configuration. Available versions: '' @
     fmt_strings (getMapKeys (dindImageVersions cfg))"

text \<open>
  What a run of the Generator's \<open>select\<close> picks while it waits for the pod: the context is
  cancelled, the five-minute timer fires, or the ten-second ticker fires; a tick carries
  what the outer cluster answers then (the pod found for the workload, asked only for a
  deployment whose pod is not known yet, and what \<open>IsPodRunning\<close> returns). The timer
  bounds the number of ticks, so when the list is exhausted the timer fires. A function
  either returns or panics (slicing \<open>item.ID[:8]\<close> of a shorter id).
\<close>

datatype select_case =
    CtxDone error
  | TimeoutFired
  | TickerFired "error + string" "error + bool"

datatype exit = Panicked | Returned "error option"

fun waitForPod ::
  "select_case list \<Rightarrow> string \<Rightarrow> string \<Rightarrow> string \<Rightarrow> QueueItem \<Rightarrow> world \<Rightarrow> exit \<times> QueueItem \<times> world"
where
  "waitForPod [] podName workloadType workloadName item w =
     (Returned (Some (''timeout waiting for pod to be running for workload '' @ workloadName)), item, w)"
| "waitForPod (CtxDone e # evs) podName workloadType workloadName item w =
     (Returned (Some e), item, w)"
| "waitForPod (TimeoutFired # evs) podName workloadType workloadName item w =
     (Returned (Some (''timeout waiting for pod to be running for workload '' @ workloadName)), item, w)"
| "waitForPod (TickerFired resolved running # evs) podName workloadType workloadName item w =
     (if podName = [] \<and> workloadType = ''deployment'' \<and> isl resolved
      then waitForPod evs podName workloadType workloadName item w
      else
        (let podName1 = (if podName = [] \<and> workloadType = ''deployment''
                         then projr resolved else podName)
         in if podName1 = [] then waitForPod evs podName1 workloadType workloadName item w
            else
              (case running of
                 Inl e \<Rightarrow>
                   (Returned (Some (''failed to check pod status for '' @ podName1 @ '': '' @ e)), item, w)
               | Inr True \<Rightarrow>
                   (case UpdateItem (item\<lparr>Status := StatusAvailable\<rparr>) w of
                      (Some e, item1, w1) \<Rightarrow>
                        (Returned (Some (''failed to update item status to available: '' @ e)), item1, w1)
                    | (None, item1, w1) \<Rightarrow> (Returned None, item1, w1))
               | Inr False \<Rightarrow> waitForPod evs podName1 workloadType workloadName item w)))"

definition processItem ::
  "generator_config \<Rightarrow> select_case list \<Rightarrow> QueueItem \<Rightarrow> string \<Rightarrow> world \<Rightarrow> exit \<times> QueueItem \<times> world"
where
  "processItem cfg evs item ns w =
     (case UpdateItem (item\<lparr>Status := StatusGenerating\<rparr>) w of
        (Some e, item1, w1) \<Rightarrow>
          (Returned (Some (''failed to update item status to generating: '' @ e)), item1, w1)
      | (None, item1, w1) \<Rightarrow>
          if length (ID item1) < 8 then (Panicked, item1, w1)
          else
            (let workloadName = ''k8s-playground-'' @ take 8 (ID item1)
             in case map_of (dindImageVersions cfg) (K8sVersion item1) of
                  None \<Rightarrow>
                    (let err = unsupportedVersion cfg (K8sVersion item1);
                         (updateErr, item2, w2) =
                           UpdateItem (item1\<lparr>Status := StatusError, ErrorMessage := err\<rparr>) w1
                     in (Returned (Some err), item2, w2))
                | Some imageTag \<Rightarrow>
                    (let dindImageName = dindImageBaseRepository cfg @ '':'' @ imageTag;
                         workloadType =
                           (if WorkloadType item1 = [] then ''statefulset'' else WorkloadType item1)
                     in case GetServiceClusterIP (nfs_cluster_ip cfg) ''k8s-playground-nfs-server'' ns w1 of
                          (Inl e, w2) \<Rightarrow>
                            (Returned (Some (''failed to get nfs server service IP: '' @ e)), item1, w2)
                        | (Inr nfsServerIP, w2) \<Rightarrow>
                            (case EnsureNFSDirectory ns (Owner item1) w2 of
                               (Some e, w3) \<Rightarrow>
                                 (Returned (Some (''failed to ensure nfs directory for owner '' @
                                    Owner item1 @ '': '' @ e)), item1, w3)
                             | (None, w3) \<Rightarrow>
                                 (case (if workloadType = ''deployment''
                                        then CreateDinDDeployment workloadName ns w3
                                        else CreateDinDStatefulSet workloadName ns w3) of
                                    (Inl e, w4) \<Rightarrow>
                                      (Returned (Some (''failed to create DinD workload with image '' @
                                         dindImageName @ '': '' @ e)), item1, w4)
                                  | (Inr created, w4) \<Rightarrow>
                                      waitForPod evs
                                        (if workloadType = ''deployment'' then [] else created)
                                        workloadType workloadName
                                        (item1\<lparr>PodID := workloadName\<rparr>) w4)))))"

text \<open>
  The loop of \<open>processPendingItems\<close>; \<open>evs_of\<close> gives, for each record id, what happens
  while the Generator waits for that record's pod. A panic ends the process.
\<close>

definition processPendingItems_body ::
  "generator_config \<Rightarrow> (string \<Rightarrow> select_case list) \<Rightarrow> string \<Rightarrow> QueueItem \<Rightarrow> world \<Rightarrow> exit \<times> world"
where
  "processPendingItems_body cfg evs_of ns item w =
     (case processItem cfg (evs_of (ID item)) item ns w of
        (Panicked, item1, w1) \<Rightarrow> (Panicked, w1)
      | (Returned None, item1, w1) \<Rightarrow> (Returned None, w1)
      | (Returned (Some e), item1, w1) \<Rightarrow>
          (Returned None,
           snd (snd (UpdateItem (item1\<lparr>Status := StatusError, ErrorMessage := e\<rparr>) w1))))"

fun processPendingItems_loop ::
  "generator_config \<Rightarrow> (string \<Rightarrow> select_case list) \<Rightarrow> string \<Rightarrow> QueueItem list \<Rightarrow> world \<Rightarrow> exit \<times> world"
where
  "processPendingItems_loop cfg evs_of ns [] w = (Returned None, w)"
| "processPendingItems_loop cfg evs_of ns (item # rest) w =
     (case processPendingItems_body cfg evs_of ns item w of
        (Panicked, w1) \<Rightarrow> (Panicked, w1)
      | (Returned r, w1) \<Rightarrow> processPendingItems_loop cfg evs_of ns rest w1)"

definition processPendingItems ::
  "generator_config \<Rightarrow> (string \<Rightarrow> select_case list) \<Rightarrow> string \<Rightarrow> world \<Rightarrow> exit \<times> world"
where
  "processPendingItems cfg evs_of ns w =
     (case GetItemsByStatus StatusPending w of
        (Inl e, w1) \<Rightarrow> (Returned (Some (''failed to get pending items: '' @ e)), w1)
      | (Inr pendingItems, w1) \<Rightarrow> processPendingItems_loop cfg evs_of ns pendingItems w1)"

section \<open>The Gateway (app-controller): reservation handlers\<close>

text \<open>
  What a handler needs besides the work queue: its configuration, the environment variable
  \<open>NAMESPACE\<close>, and the answers of the outer cluster (the pod found for a workload, the
  services discovered in a pod, whether the WebSocket upgrade succeeds). Two functions of
  the libraries behind \<open>ShouldBindJSON\<close> come with it: \<open>runeCount\<close>, the number of code
  points the validator counts in a string (\<open>utf8.RuneCountInString\<close>), and
  \<open>validationError\<close>, the text of the validator's error for the field \<open>DisplayName\<close>
  failing a tag. A handler returns its response: a JSON reply with its HTTP status, or the
  hand-over to the terminal session or to the in-pod proxy, whose own replies are not
  modelled.
\<close>

record gateway_env =
  dindWorkloadType :: string
  k8sClient_present :: bool
  NAMESPACE :: string
  podNameForWorkload :: "string \<Rightarrow> string \<Rightarrow> error + string"
  servicesInPod :: "string \<Rightarrow> string \<Rightarrow> error + string list"
  upgrade_ok :: bool
  runeCount :: "string \<Rightarrow> nat"
  validationError :: "string \<Rightarrow> error"

text \<open>
  \<open>utf8.RuneCountInString\<close> as the Go library computes it, on the bytes of the string: a
  byte below \<open>0xC2\<close> or above \<open>0xF4\<close> is a rune of its own (ASCII, a continuation
  byte out of place, or an invalid lead byte); another lead byte announces two, three or
  four bytes and, when the string has them and they lie in the ranges accepted after that
  lead byte, the sequence is one rune; otherwise the lead byte alone counts as one.
\<close>

definition runeSize :: "nat list \<Rightarrow> nat" where
  "runeSize bs =
     (case bs of
        [] \<Rightarrow> 0
      | c # rest \<Rightarrow>
          (let size = (if c < 0xC2 then 1 else if c < 0xE0 then 2 else if c < 0xF0 then 3
                       else if c < 0xF5 then 4 else 1);
               lo = (if c = 0xE0 then 0xA0 else if c = 0xF0 then 0x90 else 0x80);
               hi = (if c = 0xED then 0x9F else if c = 0xF4 then 0x8F else 0xBF)
           in if size = 1 then 1
              else if length bs < size then 1
              else if rest ! 0 < lo \<or> hi < rest ! 0 then 1
              else if size = 2 then 2
              else if rest ! 1 < 0x80 \<or> 0xBF < rest ! 1 then 1
              else if size = 3 then 3
              else if rest ! 2 < 0x80 \<or> 0xBF < rest ! 2 then 1
              else 4))"

fun runeCountBytes :: "nat list \<Rightarrow> nat" where
  "runeCountBytes [] = 0"
| "runeCountBytes (c # rest) = Suc (runeCountBytes (drop (runeSize (c # rest) - 1) rest))"

definition RuneCountInString :: "string \<Rightarrow> nat" where
  "RuneCountInString s = runeCountBytes (map of_char s)"

datatype response =
    Reply nat string
  | ReplyEnvironment nat QueueItem
  | ReplyEnvironments "QueueItem list"
  | ReplyServices "string list"
  | HandleTerminalSession string string
  | UpgradeFailed
  | ProxyThroughDinDContainer string string string string

definition namespace_of :: "gateway_env \<Rightarrow> string" where
  "namespace_of env = (if NAMESPACE env = [] then ''default'' else NAMESPACE env)"

definition getEnvironments :: "string \<Rightarrow> world \<Rightarrow> response \<times> world" where
  "getEnvironments ownerID w =
     (case GetItemsByOwner ownerID w of
        (Inl e, w1) \<Rightarrow> (Reply 500 ''Failed to get environments'', w1)
      | (Inr environments, w1) \<Rightarrow> (ReplyEnvironments environments, w1))"

text \<open>
  \<open>createEnvironment\<close>: the request body is what \<open>ShouldBindJSON\<close> makes of it, an error or
  the pair of version and display name; \<open>len\<close> counts bytes.
\<close>

definition createEnvironment ::
  "gateway_env \<Rightarrow> string \<Rightarrow> string \<Rightarrow> error + string \<times> string \<Rightarrow> world \<Rightarrow> response \<times> world"
where
  "createEnvironment env fresh ownerID req w =
     (case req of
        Inl e \<Rightarrow> (Reply 400 (''Invalid request: '' @ e), w)
      | Inr (k8sVersion, displayName) \<Rightarrow>
          if k8sVersion = [] then (Reply 400 ''k8s_version is required'', w)
          else if length displayName > 50
          then (Reply 400 ''DisplayName cannot exceed 50 characters'', w)
          else
            (let workloadType =
                   (if dindWorkloadType env \<noteq> ''statefulset'' \<and> dindWorkloadType env \<noteq> ''deployment''
                    then ''statefulset'' else dindWorkloadType env);
                 (t1, w1) = time_Now w;
                 (t2, w2) = time_Now w1;
                 item = \<lparr>Owner = ownerID, K8sVersion = k8sVersion, Status = StatusPending,
                         ErrorMessage = [], StatusUpdatedAt = t1, PodID = [],
                         ExpiresAt = t2 + 24 * (3600 * 1000000000), ID = [],
                         DisplayName = displayName, WorkloadType = workloadType\<rparr>
             in case AddItem fresh item w2 of
                  (Some e, item1, w3) \<Rightarrow> (Reply 500 ''Failed to create environment'', w3)
                | (None, item1, w3) \<Rightarrow> (ReplyEnvironment 201 item1, w3)))"

text \<open>
  The binding of the rename request, \<open>binding:"required,max=50"\<close>. The body is what the
  JSON decoder makes of it: an error, or the display name (empty when the body has none).
  \<open>ShouldBindJSON\<close> fails with the decoder's error, with the validator's error for the tag
  \<open>required\<close> when the name is empty, and with the validator's error for the tag \<open>max\<close>
  when the name has more than 50 code points (the validator compares the rune count of a
  string, not its length in bytes).
\<close>

definition bindDisplayName :: "gateway_env \<Rightarrow> error + string \<Rightarrow> error + string" where
  "bindDisplayName env body =
     (case body of
        Inl e \<Rightarrow> Inl e
      | Inr displayName \<Rightarrow>
          if displayName = [] then Inl (validationError env ''required'')
          else if runeCount env displayName > 50 then Inl (validationError env ''max'')
          else Inr displayName)"

definition updateEnvironmentDisplayName ::
  "gateway_env \<Rightarrow> string \<Rightarrow> string \<Rightarrow> error + string \<Rightarrow> world \<Rightarrow> response \<times> world"
where
  "updateEnvironmentDisplayName env ownerID envID body w =
     (case bindDisplayName env body of
        Inl e \<Rightarrow> (Reply 400 (''Invalid request: '' @ e), w)
      | Inr displayName \<Rightarrow>
          (case GetItem envID w of
             (Inl e, w1) \<Rightarrow>
               if e = ''item not found'' then (Reply 404 ''Environment not found'', w1)
               else (Reply 500 ''Failed to retrieve environment details'', w1)
           | (Inr item, w1) \<Rightarrow>
               if Owner item \<noteq> ownerID
               then (Reply 403 ''You are not the owner of this environment'', w1)
               else
                 (let (now, w2) = time_Now w1
                  in case UpdateItem (item\<lparr>DisplayName := displayName, StatusUpdatedAt := now\<rparr>) w2 of
                       (Some e, item1, w3) \<Rightarrow>
                         (Reply 500 ''Failed to update environment display name'', w3)
                     | (None, item1, w3) \<Rightarrow> (ReplyEnvironment 200 item1, w3))))"

definition destroyEnvironment :: "string \<Rightarrow> string \<Rightarrow> world \<Rightarrow> response \<times> world" where
  "destroyEnvironment ownerID ident w =
     (case GetItem ident w of
        (Inl e, w1) \<Rightarrow>
          if e = ''item not found'' then (Reply 404 ''Environment not found'', w1)
          else (Reply 500 ''Failed to retrieve environment details'', w1)
      | (Inr item, w1) \<Rightarrow>
          if Owner item \<noteq> ownerID
          then (Reply 403 ''You are not the owner of this environment'', w1)
          else
            (let (now, w2) = time_Now w1
             in case UpdateItem (item\<lparr>Status := StatusShutdown, StatusUpdatedAt := now\<rparr>) w2 of
                  (Some e, item1, w3) \<Rightarrow> (Reply 500 ''Failed to destroy environment'', w3)
                | (None, item1, w3) \<Rightarrow> (Reply 200 ''Environment marked for destruction'', w3)))"

definition connectEnvironment :: "gateway_env \<Rightarrow> string \<Rightarrow> string \<Rightarrow> world \<Rightarrow> response \<times> world" where
  "connectEnvironment env ownerID envId w =
     (case GetItem envId w of
        (Inl e, w1) \<Rightarrow> (Reply 404 ''Environment not found'', w1)
      | (Inr item, w1) \<Rightarrow>
          if Owner item \<noteq> ownerID
          then (Reply 403 ''You are not the owner of this environment'', w1)
          else if Status item \<noteq> StatusAvailable then (Reply 400 ''Environment not available'', w1)
          else if \<not> k8sClient_present env then (Reply 500 ''Kubernetes client not available'', w1)
          else if PodID item = [] then (Reply 400 ''Pod ID not available'', w1)
          else
            (case (if WorkloadType item = ''deployment''
                   then podNameForWorkload env (PodID item) (namespace_of env)
                   else Inr (PodID item @ ''-0'')) of
               Inl e \<Rightarrow> (Reply 500 ''Could not find the running pod for the environment'', w1)
             | Inr podName \<Rightarrow>
                 if upgrade_ok env then (HandleTerminalSession podName (namespace_of env), w1)
                 else (UpgradeFailed, w1)))"

definition getEnvironmentServices :: "gateway_env \<Rightarrow> string \<Rightarrow> string \<Rightarrow> world \<Rightarrow> response \<times> world" where
  "getEnvironmentServices env ownerID envID w =
     (case GetItem envID w of
        (Inl e, w1) \<Rightarrow>
          if e = ''item not found'' then (Reply 404 ''Environment not found'', w1)
          else (Reply 500 ''Failed to retrieve environment details'', w1)
      | (Inr item, w1) \<Rightarrow>
          if Owner item \<noteq> ownerID
          then (Reply 403 ''You are not the owner of this environment'', w1)
          else if Status item \<noteq> StatusAvailable then (Reply 400 ''Environment is not available'', w1)
          else if PodID item = [] then (Reply 400 ''Pod ID not available'', w1)
          else
            (case (if WorkloadType item = ''deployment''
                   then podNameForWorkload env (PodID item) (namespace_of env)
                   else Inr (PodID item @ ''-0'')) of
               Inl e \<Rightarrow> (Reply 500 ''Could not find the running pod for the environment'', w1)
             | Inr podName \<Rightarrow>
                 (case servicesInPod env podName (namespace_of env) of
                    Inl e \<Rightarrow> (Reply 500 ''Failed to retrieve services'', w1)
                  | Inr services \<Rightarrow> (ReplyServices services, w1))))"

text \<open>\<open>proxyToPod\<close>: \<open>port\<close> is the query parameter, if the request has it (default 80).\<close>

definition proxyToPod ::
  "gateway_env \<Rightarrow> string \<Rightarrow> string \<Rightarrow> string \<Rightarrow> string option \<Rightarrow> world \<Rightarrow> response \<times> world"
where
  "proxyToPod env ownerID envID path port w =
     (case GetItem envID w of
        (Inl e, w1) \<Rightarrow>
          if e = ''item not found'' then (Reply 404 ''Environment not found'', w1)
          else (Reply 500 ''Failed to retrieve environment details'', w1)
      | (Inr item, w1) \<Rightarrow>
          if Owner item \<noteq> ownerID
          then (Reply 403 ''You are not the owner of this environment'', w1)
          else if Status item \<noteq> StatusAvailable then (Reply 400 ''Environment is not available'', w1)
          else if PodID item = [] then (Reply 400 ''Pod ID not available'', w1)
          else
            (case (if WorkloadType item = ''deployment''
                   then podNameForWorkload env (PodID item) (namespace_of env)
                   else Inr (PodID item @ ''-0'')) of
               Inl e \<Rightarrow> (Reply 500 ''Could not find the running pod for the environment'', w1)
             | Inr podName \<Rightarrow>
                 (ProxyThroughDinDContainer podName (namespace_of env)
                    (case port of None \<Rightarrow> ''80'' | Some p \<Rightarrow> p) path, w1)))"

text \<open>The five resource-bound requests, and the handler each one reaches.\<close>

datatype request =
    Destroy
  | Rename "error + string"
  | ServicesOf
  | Attach
  | Proxy string "string option"

fun handle :: "gateway_env \<Rightarrow> request \<Rightarrow> string \<Rightarrow> string \<Rightarrow> world \<Rightarrow> response \<times> world" where
  "handle env Destroy ownerID ident w = destroyEnvironment ownerID ident w"
| "handle env (Rename body) ownerID ident w = updateEnvironmentDisplayName env ownerID ident body w"
| "handle env ServicesOf ownerID ident w = getEnvironmentServices env ownerID ident w"
| "handle env Attach ownerID ident w = connectEnvironment env ownerID ident w"
| "handle env (Proxy path port) ownerID ident w = proxyToPod env ownerID ident path port w"

text \<open>
  What the writers of the queue do, one call after the other: a reading of the clock, an
  update (by a loop or a handler), or the creation of a reservation by the Gateway.
\<close>

datatype writer_call =
    ReadClock
  | Update QueueItem
  | Create gateway_env string string "error + string \<times> string"

fun call :: "writer_call \<Rightarrow> world \<Rightarrow> world" where
  "call ReadClock w = snd (time_Now w)"
| "call (Update item) w = snd (snd (UpdateItem item w))"
| "call (Create env fresh ownerID req) w = snd (createEnvironment env fresh ownerID req w)"

text \<open>
  The record that the table holds under \<open>k\<close> after each call of a sequence, and the
  values of \<open>statusUpdatedAt\<close> that the table holds for \<open>k\<close> at the start and after each
  call, in that order.
\<close>

fun observe :: "string \<Rightarrow> writer_call list \<Rightarrow> world \<Rightarrow> QueueItem option list" where
  "observe k [] w = []"
| "observe k (c # cs) w = map_of (store (call c w)) k # observe k cs (call c w)"

definition stored_stamps :: "string \<Rightarrow> writer_call list \<Rightarrow> world \<Rightarrow> int list" where
  "stored_stamps k cs w =
     map StatusUpdatedAt (List.map_filter (\<lambda>r. r) (map_of (store w) k # observe k cs w))"

section \<open>The terminal resize queue\<close>

text \<open>
  \<open>sizeChan\<close> is a channel with a buffer of two sizes, modelled by the list of the sizes it
  holds, oldest first, with no receiver running beside the sender. \<open>Resize\<close> sends at once
  when there is room; otherwise nothing happens for 100 ms, then it takes one size out
  without blocking and sends the new one without blocking. \<open>Next\<close> is the receive of the
  exec stream (\<open>None\<close>: the channel is empty and the call waits).
\<close>

record TerminalSize =
  Width :: "16 word"
  Height :: "16 word"

text \<open>\<open>NewTerminalSession\<close> makes the channel: \<open>make(chan *k8s.TerminalSize, 2)\<close>, empty.\<close>

definition sizeChan_cap :: nat where
  "sizeChan_cap = 2"

definition NewTerminalSession :: "TerminalSize list" where
  "NewTerminalSession = []"

definition Resize :: "16 word \<Rightarrow> 16 word \<Rightarrow> TerminalSize list \<Rightarrow> TerminalSize list" where
  "Resize cols rows sizeChan =
     (if length sizeChan < sizeChan_cap then sizeChan @ [\<lparr>Width = cols, Height = rows\<rparr>]
      else
        (case sizeChan of
           [] \<Rightarrow> sizeChan
         | oldest # pending \<Rightarrow>
             if length pending < sizeChan_cap then pending @ [\<lparr>Width = cols, Height = rows\<rparr>]
             else pending))"

definition Next :: "TerminalSize list \<Rightarrow> TerminalSize option \<times> TerminalSize list" where
  "Next sizeChan = (case sizeChan of [] \<Rightarrow> (None, sizeChan) | oldest # pending \<Rightarrow> (Some oldest, pending))"

section \<open>The keystroke parser of the command audit\<close>

text \<open>
  \<open>commandBuffer\<close> is the \<open>sync.Map\<close> from session id to the line typed so far. Whether the
  data decode as a JSON object with a key \<open>resize\<close> is decided by \<open>encoding/json\<close>, outside
  the repository: \<open>isResize\<close> stands for that test. The loop over the runes of the input
  keeps those from 32 to 126 and Tab; each is one byte, and a byte of a longer or broken
  UTF-8 sequence decodes to a rune outside that range, so the loop keeps exactly the bytes
  \<open>printable\<close> accepts. \<open>TrimSpace\<close> drops white space at both ends; of the runes Go counts
  as white space only the single-byte ones can stand in a buffer.
\<close>

definition printable :: "char \<Rightarrow> bool" where
  "printable c = ((32::nat) \<le> of_char c \<and> of_char c \<le> (126::nat) \<or> c = CHR '' '' \<or> c = CHR 0x09)"

definition isSpace :: "char \<Rightarrow> bool" where
  "isSpace c = (c \<in> set [CHR 0x09, CHR 0x0A, CHR 0x0B, CHR 0x0C, CHR 0x0D, CHR '' ''])"

definition TrimSpace :: "string \<Rightarrow> string" where
  "TrimSpace s = rev (dropWhile isSpace (rev (dropWhile isSpace s)))"

definition ParseCommandFromWebSocketDataWithSession ::
  "(string \<Rightarrow> bool) \<Rightarrow> string \<Rightarrow> string \<Rightarrow> (string \<rightharpoonup> string) \<Rightarrow> string \<times> (string \<rightharpoonup> string)"
where
  "ParseCommandFromWebSocketDataWithSession isResize data sessionID commandBuffer =
     (if isResize data then ([], commandBuffer)
      else if data \<noteq> [] \<and> hd data = CHR 0x1B then ([], commandBuffer)
      else
        (let currentBuffer = (case commandBuffer sessionID of None \<Rightarrow> [] | Some b \<Rightarrow> b);
             loaded = (case commandBuffer sessionID of
                         None \<Rightarrow> commandBuffer(sessionID \<mapsto> [])
                       | Some b \<Rightarrow> commandBuffer)
         in if CHR 0x0D \<in> set data \<or> CHR 0x0A \<in> set data
            then
              (let command = TrimSpace currentBuffer
               in (if length command > 0 then command else [], loaded(sessionID \<mapsto> [])))
            else if data = [CHR 0x08] \<or> data = [CHR 0x7F]
            then
              (if length currentBuffer > 0
               then ([], loaded(sessionID \<mapsto> butlast currentBuffer))
               else ([], loaded))
            else ([], loaded(sessionID \<mapsto> currentBuffer @ filter printable data))))"

text \<open>Feeding a list of inputs to one session: the commands flushed, in order, and the map.\<close>

fun feed ::
  "(string \<Rightarrow> bool) \<Rightarrow> string \<Rightarrow> string list \<Rightarrow> (string \<rightharpoonup> string) \<Rightarrow> string list \<times> (string \<rightharpoonup> string)"
where
  "feed isResize sessionID [] commandBuffer = ([], commandBuffer)"
| "feed isResize sessionID (data # rest) commandBuffer =
     (let (command, cb1) = ParseCommandFromWebSocketDataWithSession isResize data sessionID commandBuffer;
          (commands, cb2) = feed isResize sessionID rest cb1
      in ((if command = [] then [] else [command]) @ commands, cb2))"

section \<open>The owner slug\<close>

text \<open>
  \<open>sanitizeName\<close> works on the runes of the name (a broken byte counts as U+FFFD, as Go
  decodes it). \<open>strings.ToLower\<close> is explicit on ASCII; \<open>lower\<close> stands for the Unicode
  tables' lower-case mapping of the other runes. \<open>replaceAll\<close> is
  \<open>regexp.MustCompile("[^a-z0-9-]+").ReplaceAllString(_, "-")\<close>: each maximal run of runes
  outside the class becomes one hyphen. \<open>Trim\<close> cuts hyphens at both ends.
\<close>

type_synonym rune = nat

definition inClass :: "rune \<Rightarrow> bool" where
  "inClass r = (97 \<le> r \<and> r \<le> 122 \<or> 48 \<le> r \<and> r \<le> 57 \<or> r = 45)"

definition ToLower :: "(rune \<Rightarrow> rune) \<Rightarrow> rune list \<Rightarrow> rune list" where
  "ToLower lower s = map (\<lambda>r. if 65 \<le> r \<and> r \<le> 90 then r + 32 else if r < 128 then r else lower r) s"

function replaceAll :: "rune list \<Rightarrow> rune list" where
  "replaceAll [] = []"
| "replaceAll (r # rs) =
     (if inClass r then r # replaceAll rs
      else 45 # replaceAll (dropWhile (\<lambda>x. \<not> inClass x) rs))"
  by pat_completeness auto
termination
  by (relation "measure length") (auto simp: length_dropWhile_le less_Suc_eq_le)

definition Trim :: "rune list \<Rightarrow> rune list" where
  "Trim s = rev (dropWhile (\<lambda>r. r = 45) (rev (dropWhile (\<lambda>r. r = 45) s)))"

definition sanitizeName :: "(rune \<Rightarrow> rune) \<Rightarrow> rune list \<Rightarrow> rune list" where
  "sanitizeName lower name =
     (let sanitized = Trim (replaceAll (ToLower lower name))
      in if length sanitized = 0 then map of_char ''invalid-name'' else sanitized)"

section \<open>Reading the trace\<close>

text \<open>
  The events a step appended to the trace, and two tests on events: a deletion in the outer
  cluster, and an attempt to write a record with a given status.
\<close>

definition new_events :: "world \<Rightarrow> world \<Rightarrow> event list" where
  "new_events w w' = drop (length (trace w)) (trace w')"

fun is_delete :: "event \<Rightarrow> bool" where
  "is_delete (ApiDelete k ns name res) = True"
| "is_delete _ = False"

fun writes_status :: "QueueStatus \<Rightarrow> event \<Rightarrow> bool" where
  "writes_status s (HSet item r) = (Status item = s)"
| "writes_status s _ = False"

text \<open>
  A step that touches the outer cluster only: the queue, the clock and the pending Redis
  outcomes are as before, and the events it appended are deletions.
\<close>

definition only_deletes :: "world \<Rightarrow> world \<Rightarrow> bool" where
  "only_deletes w w' =
     (store w' = store w \<and> redis_errs w' = redis_errs w \<and> clock w' = clock w \<and>
      reads w' = reads w \<and>
      (\<exists>evs. trace w' = trace w @ evs \<and> list_all is_delete evs))"

text \<open>
  How a step answers the writes that the queue refuses. \<open>answered k evs\<close>: in the events
  of the step, every refused write is followed at once by an attempt to write the record
  \<open>k\<close> with status \<open>error\<close>, and a refused write that is the last event of the step is
  itself a write of \<open>k\<close> with status \<open>error\<close>.
\<close>

fun refused :: "event \<Rightarrow> bool" where
  "refused (HSet item (Some e)) = True"
| "refused _ = False"

fun error_write :: "string \<Rightarrow> event \<Rightarrow> bool" where
  "error_write k (HSet item r) = (ID item = k \<and> Status item = StatusError)"
| "error_write k _ = False"

fun answered :: "string \<Rightarrow> event list \<Rightarrow> bool" where
  "answered k [] = True"
| "answered k [ev] = (if refused ev then error_write k ev else True)"
| "answered k (ev # next # evs) =
     ((if refused ev then error_write k next else True) \<and> answered k (next # evs))"

text \<open>Whether a read of the queue goes through and returns the record.\<close>

definition found_by ::
  "(world \<Rightarrow> (error + QueueItem list) \<times> world) \<Rightarrow> QueueItem \<Rightarrow> world \<Rightarrow> bool"
where
  "found_by read item w =
     (case fst (read w) of Inl e \<Rightarrow> False | Inr items \<Rightarrow> item \<in> set items)"

text \<open>What a delete call answers when the outer API itself does not fail.\<close>

definition found :: "kind \<Rightarrow> string \<Rightarrow> string \<Rightarrow> world \<Rightarrow> api_result" where
  "found k ns n w = (if (k, ns, n) \<in> set (objects w) then Deleted else NotFound)"

section \<open>Concrete inputs\<close>

text \<open>A reservation of Alice's, and a world with an empty queue whose clock advances by one
  at every reading.\<close>

definition item0 :: QueueItem where
  "item0 = \<lparr>Owner = ''alice'', K8sVersion = ''1.33'', Status = StatusAvailable,
            ErrorMessage = [], StatusUpdatedAt = 10, PodID = ''k8s-playground-0a1b2c3d'',
            ExpiresAt = 500, ID = ''0a1b2c3d-0000'', DisplayName = ''demo'',
            WorkloadType = ''statefulset''\<rparr>"

definition world0 :: world where
  "world0 = \<lparr>store = [], objects = [], clock = (\<lambda>n. 1000 + int n), reads = 0,
             redis_errs = [], api_errs = [], trace = []\<rparr>"

text \<open>A resize frame as the browser sends it.\<close>

definition resizeFrame :: string where
  "resizeFrame = ''{'' @ [CHR 0x22] @ ''resize'' @ [CHR 0x22] @ '':true,'' @ [CHR 0x22] @ ''cols'' @
                 [CHR 0x22] @ '':80,'' @ [CHR 0x22] @ ''rows'' @ [CHR 0x22] @ '':24}''"

text \<open>
  The same reservation marked for shutdown, in a queue that holds it, with its stateful set,
  service and volume claim in the outer cluster; and the same world when the outer API is
  about to refuse one call.
\<close>

definition item1 :: QueueItem where
  "item1 = item0\<lparr>Status := StatusShutdown\<rparr>"

definition world1 :: world where
  "world1 = world0\<lparr>store := [(''0a1b2c3d-0000'', item1)],
               objects := [(StatefulSets, ''default'', ''k8s-playground-0a1b2c3d''),
                           (Services, ''default'', ''k8s-playground-0a1b2c3d''),
                           (PersistentVolumeClaims, ''default'',
                            ''docker-graph-storage-k8s-playground-0a1b2c3d-0'')]\<rparr>"

definition world1_api_down :: world where
  "world1_api_down = world1\<lparr>api_errs := [Some ''connection refused'']\<rparr>"

text \<open>
  For the Collector: a queue holding the available reservation (which expires at 500) and a
  second one that expires at 5000, read at the times 1000, 1001, ...; and the queue holding
  the first reservation alone, on a clock that stands at 500, the instant of its expiry.
\<close>

definition item2 :: QueueItem where
  "item2 = item0\<lparr>ID := ''ffff0000-1111'', ExpiresAt := 5000\<rparr>"

definition world2 :: world where
  "world2 = world0\<lparr>store := [(''0a1b2c3d-0000'', item0), (''ffff0000-1111'', item2)]\<rparr>"

definition world_at_expiry :: world where
  "world_at_expiry = world0\<lparr>store := [(''0a1b2c3d-0000'', item0)], clock := (\<lambda>n. 500)\<rparr>"

text \<open>
  Worlds whose queue backend is about to refuse commands: the next two, the next one, and
  (for a whole Collector tick) the second one, after the read of the table has gone through.
\<close>

definition world1_redis_down :: world where
  "world1_redis_down = world1\<lparr>redis_errs := [Some ''i/o timeout'', Some ''i/o timeout'']\<rparr>"

definition world1_redis_flaky :: world where
  "world1_redis_flaky = world1\<lparr>redis_errs := [Some ''i/o timeout'']\<rparr>"

definition world2_redis_flaky :: world where
  "world2_redis_flaky = world2\<lparr>redis_errs := [None, Some ''i/o timeout'']\<rparr>"




text \<open>
  A Gateway whose collaborators all answer and whose validator prints its errors as
  \<open>Key: 'DisplayName' Error:Field validation for 'DisplayName' failed on the 'max' tag\<close>;
  a display name of 26 letters \<open>U+00E9\<close>, which are 52 bytes, and one of 51 letters
  \<open>x\<close>; and the queue holding Alice's reservation, also when the backend is about to
  refuse the next command.
\<close>

definition env0 :: gateway_env where
  "env0 = \<lparr>dindWorkloadType = ''statefulset'', k8sClient_present = True, NAMESPACE = [],
           podNameForWorkload = (\<lambda>workload ns. Inr (workload @ ''-abcde'')),
           servicesInPod = (\<lambda>pod ns. Inr []), upgrade_ok = True,
           runeCount = RuneCountInString,
           validationError = (\<lambda>tag. ''Key: '' @ [CHR 0x27] @ ''DisplayName'' @ [CHR 0x27] @
              '' Error:Field validation for '' @ [CHR 0x27] @ ''DisplayName'' @ [CHR 0x27] @
              '' failed on the '' @ [CHR 0x27] @ tag @ [CHR 0x27] @ '' tag'')\<rparr>"

definition name_26_runes :: string where
  "name_26_runes = concat (replicate 26 [CHR 0xC3, CHR 0xA9])"

definition name_51_runes :: string where
  "name_51_runes = replicate 51 CHR ''x''"

definition world_alice :: world where
  "world_alice = world0\<lparr>store := [(''0a1b2c3d-0000'', item0)]\<rparr>"

definition world_alice_redis_down :: world where
  "world_alice_redis_down = world_alice\<lparr>redis_errs := [Some ''i/o timeout'']\<rparr>"

text \<open>The queue holding Alice's reservation, read on a clock that loses one unit at every
  reading (a wall clock that is being set back).\<close>

definition world_clock_back :: world where
  "world_clock_back = world_alice\<lparr>clock := (\<lambda>n. 1000 - int n)\<rparr>"

section \<open>Properties of the work queue\<close>

lemma UpdateItem_two_steps:
  "UpdateItem item w =
     UpdateItem_HSet (fst (UpdateItem_stamp item w)) (snd (UpdateItem_stamp item w))"
  by (simp add: UpdateItem_def UpdateItem_stamp_def UpdateItem_HSet_def time_Now_def Let_def
      split: prod.splits)

lemma UpdateItem_store_step:
  "clock (snd (snd (UpdateItem item w))) = clock w \<and>
   reads (snd (snd (UpdateItem item w))) = Suc (reads w) \<and>
   (map_of (store (snd (snd (UpdateItem item w)))) k = map_of (store w) k \<or>
    (\<exists>it. map_of (store (snd (snd (UpdateItem item w)))) k = Some it \<and>
          StatusUpdatedAt it = clock w (reads w)))"
  by (auto simp: UpdateItem_def time_Now_def redis_call_def Let_def update_conv'
      split: list.splits option.splits)

lemma AddItem_store_step:
  "clock (snd (snd (AddItem fresh item w))) = clock w \<and>
   reads (snd (snd (AddItem fresh item w))) = reads w \<and>
   (map_of (store (snd (snd (AddItem fresh item w)))) k = map_of (store w) k \<or>
    (\<exists>it. map_of (store (snd (snd (AddItem fresh item w)))) k = Some it \<and>
          StatusUpdatedAt it = StatusUpdatedAt item))"
  by (auto simp: AddItem_def redis_call_def Let_def update_conv'
      split: list.splits option.splits)

lemma createEnvironment_cases:
  "snd (createEnvironment env fresh ownerID req w) = w \<or>
   (\<exists>item. StatusUpdatedAt item = clock w (reads w) \<and>
      snd (createEnvironment env fresh ownerID req w) =
        snd (snd (AddItem fresh item (w\<lparr>reads := Suc (Suc (reads w))\<rparr>))))"
proof (cases req)
  case (Inl e)
  then show ?thesis by (simp add: createEnvironment_def)
next
  case (Inr p)
  obtain v d where p: "p = (v, d)" by (cases p)
  show ?thesis
  proof (cases "v = [] \<or> length d > 50")
    case True
    then show ?thesis using Inr p by (auto simp: createEnvironment_def)
  next
    case False
    let ?item = "\<lparr>Owner = ownerID, K8sVersion = v, Status = StatusPending,
                         ErrorMessage = [], StatusUpdatedAt = clock w (reads w), PodID = [],
                         ExpiresAt = clock w (Suc (reads w)) + 24 * (3600 * 1000000000), ID = [],
                         DisplayName = d, WorkloadType =
                   (if dindWorkloadType env \<noteq> ''statefulset'' \<and> dindWorkloadType env \<noteq> ''deployment''
                    then ''statefulset'' else dindWorkloadType env)\<rparr>"
    have "snd (createEnvironment env fresh ownerID req w) =
        snd (snd (AddItem fresh ?item (w\<lparr>reads := Suc (Suc (reads w))\<rparr>)))"
      using False Inr p
      by (simp add: createEnvironment_def time_Now_def Let_def split: prod.splits option.splits)
    moreover have "StatusUpdatedAt ?item = clock w (reads w)" by simp
    ultimately show ?thesis by blast
  qed
qed

lemma createEnvironment_store_step:
  "clock (snd (createEnvironment env fresh ownerID req w)) = clock w \<and>
   reads w \<le> reads (snd (createEnvironment env fresh ownerID req w)) \<and>
   (map_of (store (snd (createEnvironment env fresh ownerID req w))) k = map_of (store w) k \<or>
    (\<exists>it. map_of (store (snd (createEnvironment env fresh ownerID req w))) k = Some it \<and>
          StatusUpdatedAt it = clock w (reads w)))"
proof -
  from createEnvironment_cases [of env fresh ownerID req w]
  show ?thesis
  proof
    assume "snd (createEnvironment env fresh ownerID req w) = w"
    then show ?thesis by simp
  next
    assume "\<exists>item. StatusUpdatedAt item = clock w (reads w) \<and>
      snd (createEnvironment env fresh ownerID req w) =
        snd (snd (AddItem fresh item (w\<lparr>reads := Suc (Suc (reads w))\<rparr>)))"
    then obtain item where s: "StatusUpdatedAt item = clock w (reads w)"
      and c: "snd (createEnvironment env fresh ownerID req w) =
        snd (snd (AddItem fresh item (w\<lparr>reads := Suc (Suc (reads w))\<rparr>)))"
      by blast
    note a = AddItem_store_step [of fresh item "w\<lparr>reads := Suc (Suc (reads w))\<rparr>" k]
    show ?thesis
      unfolding c using a s by (auto simp del: AddItem_def)
  qed
qed

lemma call_store_step:
  "clock (call c w) = clock w \<and> reads w \<le> reads (call c w) \<and>
   (map_of (store (call c w)) k = map_of (store w) k \<or>
    (\<exists>it. map_of (store (call c w)) k = Some it \<and> StatusUpdatedAt it = clock w (reads w)))"
proof (cases c)
  case ReadClock
  then show ?thesis by (simp add: time_Now_def)
next
  case (Update item)
  then show ?thesis using UpdateItem_store_step [of item w k] by simp
next
  case (Create env fresh ownerID req)
  then show ?thesis using createEnvironment_store_step [of env fresh ownerID req w k] by simp
qed

lemma observe_sorted:
  assumes "\<forall>m n. m \<le> n \<longrightarrow> clock w m \<le> clock w n"
    and "\<forall>it. map_of (store w) k = Some it \<longrightarrow> StatusUpdatedAt it \<le> clock w (reads w)"
  shows "sorted (map StatusUpdatedAt (List.map_filter (\<lambda>r. r) (observe k cs w))) \<and>
         (\<forall>s \<in> set (map StatusUpdatedAt (List.map_filter (\<lambda>r. r) (observe k cs w))).
            \<forall>it. map_of (store w) k = Some it \<longrightarrow> StatusUpdatedAt it \<le> s)"
  using assms
proof (induction cs arbitrary: w)
  case Nil
  then show ?case by (simp add: List.map_filter_def)
next
  case (Cons c cs)
  let ?w1 = "call c w"
  let ?rest = "map StatusUpdatedAt (List.map_filter (\<lambda>r. r) (observe k cs ?w1))"
  note st = call_store_step [of c w k]
  have le: "clock w (reads w) \<le> clock w (reads ?w1)"
    using Cons.prems(1) st by blast
  have m1: "\<forall>m n. m \<le> n \<longrightarrow> clock ?w1 m \<le> clock ?w1 n"
    using Cons.prems(1) st by simp
  have b1: "\<forall>it. map_of (store ?w1) k = Some it \<longrightarrow> StatusUpdatedAt it \<le> clock ?w1 (reads ?w1)"
  proof (intro allI impI)
    fix it assume a: "map_of (store ?w1) k = Some it"
    from st have "map_of (store ?w1) k = map_of (store w) k \<or>
      (\<exists>it. map_of (store ?w1) k = Some it \<and> StatusUpdatedAt it = clock w (reads w))" by blast
    then have "StatusUpdatedAt it \<le> clock w (reads w)"
      using a Cons.prems(2) by auto
    then show "StatusUpdatedAt it \<le> clock ?w1 (reads ?w1)"
      using le st by simp
  qed
  note ih = Cons.IH [OF m1 b1]
  have up: "\<forall>it it1. map_of (store w) k = Some it \<longrightarrow> map_of (store ?w1) k = Some it1 \<longrightarrow>
              StatusUpdatedAt it \<le> StatusUpdatedAt it1"
    using st Cons.prems(2) by auto
  have keep: "map_of (store ?w1) k = None \<longrightarrow> map_of (store w) k = None"
    using st by auto
  show ?case
  proof (cases "map_of (store ?w1) k")
    case None
    then have "map StatusUpdatedAt (List.map_filter (\<lambda>r. r) (observe k (c # cs) w)) = ?rest"
      by (simp add: List.map_filter_def)
    then show ?thesis using ih keep None by simp
  next
    case (Some it1)
    then have e: "map StatusUpdatedAt (List.map_filter (\<lambda>r. r) (observe k (c # cs) w)) =
        StatusUpdatedAt it1 # ?rest"
      by (simp add: List.map_filter_def)
    have "sorted (StatusUpdatedAt it1 # ?rest)"
      using ih Some by simp
    moreover have "\<forall>s \<in> set (StatusUpdatedAt it1 # ?rest).
        \<forall>it. map_of (store w) k = Some it \<longrightarrow> StatusUpdatedAt it \<le> s"
    proof (intro ballI allI impI)
      fix s it
      assume s: "s \<in> set (StatusUpdatedAt it1 # ?rest)" and i: "map_of (store w) k = Some it"
      have a: "StatusUpdatedAt it \<le> StatusUpdatedAt it1" using up i Some by blast
      from s have "StatusUpdatedAt it1 \<le> s" using ih Some by auto
      then show "StatusUpdatedAt it \<le> s" using a by simp
    qed
    ultimately show ?thesis unfolding e by blast
  qed
qed

text \<open>
  C3 (amended). A call of \<open>UpdateItem\<close> that the queue accepts succeeds and stores the
  record under its id with \<open>statusUpdatedAt\<close> set to the clock reading taken by that call.
  When the calls of the writers (clock readings, updates, and creations by the Gateway,
  which stamps the new record itself) run one after the other on a clock that never steps
  back, and the stamp the table holds at the start is not ahead of the clock, the values of
  \<open>statusUpdatedAt\<close> that the table holds for one record, at the start and after each
  call, never decrease.
\<close>

theorem UpdateItem_stored_stamps_nondecreasing:
  assumes "\<forall>m n. m \<le> n \<longrightarrow> clock w m \<le> clock w n"
    and "\<forall>it. map_of (store w) k = Some it \<longrightarrow> StatusUpdatedAt it \<le> clock w (reads w)"
  shows "(\<forall>item w0. fst (redis_call w0) = None \<longrightarrow>
            fst (UpdateItem item w0) = None \<and>
            map_of (store (snd (snd (UpdateItem item w0)))) (ID item) =
              Some (item\<lparr>StatusUpdatedAt := clock w0 (reads w0)\<rparr>)) \<and>
         sorted (stored_stamps k cs w)"
proof
  show "\<forall>item w0. fst (redis_call w0) = None \<longrightarrow>
            fst (UpdateItem item w0) = None \<and>
            map_of (store (snd (snd (UpdateItem item w0)))) (ID item) =
              Some (item\<lparr>StatusUpdatedAt := clock w0 (reads w0)\<rparr>)"
    by (auto simp: UpdateItem_def time_Now_def redis_call_def Let_def update_conv'
        split: list.splits option.splits)
next
  note o = observe_sorted [OF assms, of cs]
  show "sorted (stored_stamps k cs w)"
  proof (cases "map_of (store w) k")
    case None
    then show ?thesis using o by (simp add: stored_stamps_def List.map_filter_def)
  next
    case (Some it)
    then show ?thesis using o by (simp add: stored_stamps_def List.map_filter_def)
  qed
qed

theorem UpdateItem_stored_stamps_nondecreasing_witness:
  "fst (UpdateItem (item0\<lparr>Status := StatusShutdown\<rparr>) world_alice) = None \<and>
   map_of (store (snd (snd (UpdateItem (item0\<lparr>Status := StatusShutdown\<rparr>) world_alice))))
     ''0a1b2c3d-0000'' = Some (item0\<lparr>Status := StatusShutdown, StatusUpdatedAt := 1000\<rparr>) \<and>
   sorted (stored_stamps ''0a1b2c3d-0000''
     [Update (item0\<lparr>Status := StatusShutdown\<rparr>), ReadClock,
      Update (item0\<lparr>Status := StatusTerminated\<rparr>),
      Create env0 ''ffff0000-1111'' ''alice'' (Inr (''1.33'', ''demo''))] world_alice) \<and>
   stored_stamps ''0a1b2c3d-0000''
     [Update (item0\<lparr>Status := StatusShutdown\<rparr>), ReadClock,
      Update (item0\<lparr>Status := StatusTerminated\<rparr>),
      Create env0 ''ffff0000-1111'' ''alice'' (Inr (''1.33'', ''demo''))] world_alice =
     [10, 1000, 1000, 1002, 1002]"
proof -
  have m: "\<forall>m n. m \<le> n \<longrightarrow> clock world_alice m \<le> clock world_alice n"
    by (simp add: world_alice_def world0_def)
  have i: "\<forall>it. map_of (store world_alice) ''0a1b2c3d-0000'' = Some it \<longrightarrow>
      StatusUpdatedAt it \<le> clock world_alice (reads world_alice)"
    by (simp add: world_alice_def world0_def item0_def)
  have r: "fst (redis_call world_alice) = None"
    by (simp add: redis_call_def world_alice_def world0_def)
  have c: "clock world_alice (reads world_alice) = 1000"
    by (simp add: world_alice_def world0_def)
  have d: "ID (item0\<lparr>Status := StatusShutdown\<rparr>) = ''0a1b2c3d-0000''"
    by (simp add: item0_def)
  have s: "stored_stamps ''0a1b2c3d-0000''
     [Update (item0\<lparr>Status := StatusShutdown\<rparr>), ReadClock,
      Update (item0\<lparr>Status := StatusTerminated\<rparr>),
      Create env0 ''ffff0000-1111'' ''alice'' (Inr (''1.33'', ''demo''))] world_alice =
     [10, 1000, 1000, 1002, 1002]"
    by (simp add: stored_stamps_def createEnvironment_def AddItem_def UpdateItem_def time_Now_def
        redis_call_def world_alice_def world0_def item0_def env0_def List.map_filter_def Let_def)
  note t = UpdateItem_stored_stamps_nondecreasing [OF m i, of
        "[Update (item0\<lparr>Status := StatusShutdown\<rparr>), ReadClock,
          Update (item0\<lparr>Status := StatusTerminated\<rparr>),
          Create env0 ''ffff0000-1111'' ''alice'' (Inr (''1.33'', ''demo''))]"]
  from t have "fst (UpdateItem (item0\<lparr>Status := StatusShutdown\<rparr>) world_alice) = None \<and>
      map_of (store (snd (snd (UpdateItem (item0\<lparr>Status := StatusShutdown\<rparr>) world_alice))))
        (ID (item0\<lparr>Status := StatusShutdown\<rparr>)) =
        Some (item0\<lparr>Status := StatusShutdown,
                     StatusUpdatedAt := clock world_alice (reads world_alice)\<rparr>)"
    using r by blast
  then show ?thesis
    using t s unfolding c d by simp
qed

text \<open>
  C3 as stated fails. On a clock that steps back, two accepted writes of one record store
  the stamps 1000 and then 999. And on a clock that only advances, when one writer has
  stamped its copy, a second writer stamps and stores its own, and the first writer then
  stores the older copy, the table holds the stamp 1001 and then 1000.
\<close>

theorem UpdateItem_stamps_decrease_counterexample:
  "fst (UpdateItem (item0\<lparr>Status := StatusShutdown\<rparr>) world_clock_back) = None \<and>
   fst (UpdateItem (item0\<lparr>Status := StatusTerminated\<rparr>)
          (snd (snd (UpdateItem (item0\<lparr>Status := StatusShutdown\<rparr>) world_clock_back)))) = None \<and>
   stored_stamps ''0a1b2c3d-0000''
     [Update (item0\<lparr>Status := StatusShutdown\<rparr>),
      Update (item0\<lparr>Status := StatusTerminated\<rparr>)] world_clock_back = [10, 1000, 999] \<and>
   \<not> sorted (stored_stamps ''0a1b2c3d-0000''
     [Update (item0\<lparr>Status := StatusShutdown\<rparr>),
      Update (item0\<lparr>Status := StatusTerminated\<rparr>)] world_clock_back) \<and>
   clock world_alice = (\<lambda>n. 1000 + int n) \<and>
   map_option StatusUpdatedAt
     (map_of (store (fst (interleaved (item0\<lparr>Status := StatusTerminated\<rparr>)
                            (item0\<lparr>DisplayName := ''mine''\<rparr>) world_alice))) ''0a1b2c3d-0000'') =
     Some 1001 \<and>
   map_option StatusUpdatedAt
     (map_of (store (snd (interleaved (item0\<lparr>Status := StatusTerminated\<rparr>)
                            (item0\<lparr>DisplayName := ''mine''\<rparr>) world_alice))) ''0a1b2c3d-0000'') =
     Some 1000"
  by (simp add: stored_stamps_def interleaved_def UpdateItem_stamp_def UpdateItem_HSet_def
      UpdateItem_def time_Now_def redis_call_def world_clock_back_def world_alice_def world0_def
      item0_def List.map_filter_def Let_def)

section \<open>Properties of the resize queue\<close>

text \<open>
  C5 (amended). The resize queue holds at most two sizes; while there is room a new size is
  appended, and when the queue is full the oldest pending size is discarded and the new one
  appended. So the sizes A, B, C submitted to the empty queue of a new session that nobody
  reads leave B, C in it: the exec stream receives B, then C.
\<close>

theorem Resize_drops_oldest:
  "Resize c1 c2 (Resize b1 b2 (Resize a1 a2 NewTerminalSession)) =
     [\<lparr>Width = b1, Height = b2\<rparr>, \<lparr>Width = c1, Height = c2\<rparr>] \<and>
   (length q < 2 \<longrightarrow> Resize c1 c2 q = q @ [\<lparr>Width = c1, Height = c2\<rparr>]) \<and>
   (length q = 2 \<longrightarrow> Resize c1 c2 q = tl q @ [\<lparr>Width = c1, Height = c2\<rparr>]) \<and>
   (length q \<le> 2 \<longrightarrow> length (Resize c1 c2 q) \<le> 2) \<and>
   Next [\<lparr>Width = b1, Height = b2\<rparr>, \<lparr>Width = c1, Height = c2\<rparr>] =
     (Some \<lparr>Width = b1, Height = b2\<rparr>, [\<lparr>Width = c1, Height = c2\<rparr>]) \<and>
   Next [\<lparr>Width = c1, Height = c2\<rparr>] = (Some \<lparr>Width = c1, Height = c2\<rparr>, [])"
  by (auto simp: Resize_def Next_def NewTerminalSession_def sizeChan_cap_def split: list.splits)

theorem Resize_drops_oldest_witness:
  "Resize 80 24 [\<lparr>Width = 100, Height = 30\<rparr>, \<lparr>Width = 120, Height = 30\<rparr>] =
     [\<lparr>Width = 120, Height = 30\<rparr>, \<lparr>Width = 80, Height = 24\<rparr>] \<and>
   length (Resize 80 24 [\<lparr>Width = 100, Height = 30\<rparr>, \<lparr>Width = 120, Height = 30\<rparr>]) \<le> 2 \<and>
   Resize 80 24 [\<lparr>Width = 100, Height = 30\<rparr>] = [\<lparr>Width = 100, Height = 30\<rparr>, \<lparr>Width = 80, Height = 24\<rparr>]"
  using Resize_drops_oldest [of 80 24 120 30 100 30 "[\<lparr>Width = 100, Height = 30\<rparr>, \<lparr>Width = 120, Height = 30\<rparr>]"]
    Resize_drops_oldest [of 80 24 120 30 100 30 "[\<lparr>Width = 100, Height = 30\<rparr>]"]
  by simp

text \<open>
  C5 as stated fails: after (100,30), (120,30), (80,24) the queue is neither A, C nor C alone.
\<close>

theorem Resize_keeps_first_counterexample:
  "Resize 80 24 (Resize 120 30 (Resize 100 30 NewTerminalSession)) \<noteq>
     [\<lparr>Width = 100, Height = 30\<rparr>, \<lparr>Width = 80, Height = 24\<rparr>] \<and>
   Resize 80 24 (Resize 120 30 (Resize 100 30 NewTerminalSession)) \<noteq> [\<lparr>Width = 80, Height = 24\<rparr>] \<and>
   Resize 80 24 (Resize 120 30 (Resize 100 30 NewTerminalSession)) =
     [\<lparr>Width = 120, Height = 30\<rparr>, \<lparr>Width = 80, Height = 24\<rparr>]"
  by (simp add: Resize_def NewTerminalSession_def sizeChan_cap_def)

section \<open>Properties of the owner slug\<close>

lemma ToLower_id: "\<forall>r \<in> set s. inClass r \<Longrightarrow> ToLower lower s = s"
  by (induction s) (auto simp: ToLower_def inClass_def)

lemma replaceAll_id: "\<forall>r \<in> set s. inClass r \<Longrightarrow> replaceAll s = s"
  by (induction s) auto

lemma replaceAll_inClass: "\<forall>r \<in> set (replaceAll s). inClass r"
  by (induction s rule: replaceAll.induct) (auto simp: inClass_def)

lemma Trim_subset: "set (Trim s) \<subseteq> set s"
proof -
  have "set (dropWhile P xs) \<subseteq> set xs" for P and xs :: "nat list"
    by (auto dest: set_dropWhileD)
  then show ?thesis unfolding Trim_def by (metis set_rev subset_trans)
qed

lemma last_dropWhile_keep: "dropWhile P xs \<noteq> [] \<Longrightarrow> last (dropWhile P xs) = last xs"
  by (induction xs) (auto split: if_splits)

lemma Trim_ends: "Trim s \<noteq> [] \<Longrightarrow> hd (Trim s) \<noteq> 45 \<and> last (Trim s) \<noteq> 45"
proof -
  assume ne: "Trim s \<noteq> []"
  let ?P = "\<lambda>r::nat. r = 45"
  let ?t = "dropWhile ?P s"
  let ?u = "dropWhile ?P (rev ?t)"
  have u: "?u \<noteq> []" using ne by (simp add: Trim_def)
  have t: "?t \<noteq> []"
  proof
    assume "?t = []"
    then have "?u = []" by (simp only: rev.simps(1) dropWhile.simps(1))
    with u show False by simp
  qed
  have "hd ?u \<noteq> 45" using u hd_dropWhile [of ?P "rev ?t"] by simp
  then have l: "last (Trim s) \<noteq> 45" using u by (simp add: Trim_def last_rev)
  have "last ?u = last (rev ?t)" using u by (rule last_dropWhile_keep)
  also have "\<dots> = hd ?t" using t by (simp add: last_rev)
  finally have "hd (Trim s) = hd ?t" using u by (simp add: Trim_def hd_rev)
  moreover have "hd ?t \<noteq> 45" using t hd_dropWhile [of ?P s] by simp
  ultimately show ?thesis using l by simp
qed

lemma Trim_id: "s \<noteq> [] \<Longrightarrow> hd s \<noteq> 45 \<Longrightarrow> last s \<noteq> 45 \<Longrightarrow> Trim s = s"
proof -
  assume a: "s \<noteq> []" "hd s \<noteq> 45" "last s \<noteq> 45"
  have 1: "dropWhile (\<lambda>r. r = 45) s = s" using a by (cases s) auto
  have "hd (rev s) \<noteq> 45" using a by (simp add: hd_rev)
  then have 2: "dropWhile (\<lambda>r. r = 45) (rev s) = rev s" using a by (cases "rev s") auto
  show ?thesis by (simp add: Trim_def 1 2)
qed

lemma sanitizeName_canonical:
  "sanitizeName lower name \<noteq> [] \<and> (\<forall>r \<in> set (sanitizeName lower name). inClass r) \<and>
   hd (sanitizeName lower name) \<noteq> 45 \<and> last (sanitizeName lower name) \<noteq> 45"
proof (cases "Trim (replaceAll (ToLower lower name)) = []")
  case True
  then show ?thesis by (simp add: sanitizeName_def inClass_def)
next
  case False
  moreover have "\<forall>r \<in> set (Trim (replaceAll (ToLower lower name))). inClass r"
    using Trim_subset replaceAll_inClass by blast
  ultimately show ?thesis using Trim_ends [OF False] by (simp add: sanitizeName_def)
qed

text \<open>
  C10. The owner slug is idempotent and canonical: sanitising a sanitised name changes
  nothing, and the result is never empty, consists of runes of \<open>[a-z0-9-]\<close> only, and
  neither starts nor ends with a hyphen; when nothing is left after trimming, it is the
  fixed string \<open>invalid-name\<close>. This holds whatever the Unicode lower-case table is.
\<close>

theorem sanitizeName_idempotent_canonical:
  "sanitizeName lower (sanitizeName lower name) = sanitizeName lower name \<and>
   sanitizeName lower name \<noteq> [] \<and>
   (\<forall>r \<in> set (sanitizeName lower name). inClass r) \<and>
   hd (sanitizeName lower name) \<noteq> 45 \<and> last (sanitizeName lower name) \<noteq> 45 \<and>
   (Trim (replaceAll (ToLower lower name)) = [] \<longrightarrow>
      sanitizeName lower name = map of_char ''invalid-name'')"
proof -
  let ?r = "sanitizeName lower name"
  note c = sanitizeName_canonical [of lower name]
  have "ToLower lower ?r = ?r" using c ToLower_id by blast
  moreover have "replaceAll ?r = ?r" using c replaceAll_id by blast
  moreover have "Trim ?r = ?r" using c Trim_id by blast
  ultimately have "sanitizeName lower ?r = ?r" using c by (simp add: sanitizeName_def)
  then show ?thesis using c by (simp add: sanitizeName_def)
qed

theorem sanitizeName_idempotent_canonical_witness:
  "sanitizeName id (map of_char ''John.Doe@Example.COM'') = map of_char ''john-doe-example-com'' \<and>
   sanitizeName id (sanitizeName id (map of_char ''John.Doe@Example.COM'')) = map of_char ''john-doe-example-com'' \<and>
   sanitizeName id (map of_char ''@@'') = map of_char ''invalid-name'' \<and>
   sanitizeName id (sanitizeName id (map of_char ''@@'')) = map of_char ''invalid-name''"
proof -
  have 1: "sanitizeName id (map of_char ''John.Doe@Example.COM'') = map of_char ''john-doe-example-com''"
    by (simp add: sanitizeName_def ToLower_def Trim_def inClass_def)
  have 2: "sanitizeName id (map of_char ''@@'') = map of_char ''invalid-name''"
    by (simp add: sanitizeName_def ToLower_def Trim_def inClass_def)
  show ?thesis
    using sanitizeName_idempotent_canonical [of id "map of_char ''John.Doe@Example.COM''"]
      sanitizeName_idempotent_canonical [of id "map of_char ''@@''"] 1 2
    by simp
qed

section \<open>Properties of the keystroke parser\<close>

lemma Parse_skip:
  "isResize d \<or> (d \<noteq> [] \<and> hd d = CHR 0x1B) \<Longrightarrow>
   ParseCommandFromWebSocketDataWithSession isResize d sid cb = ([], cb)"
  by (auto simp: ParseCommandFromWebSocketDataWithSession_def)

lemma Parse_flush:
  "\<not> isResize d \<Longrightarrow> \<not> (d \<noteq> [] \<and> hd d = CHR 0x1B) \<Longrightarrow>
   CHR 0x0D \<in> set d \<or> CHR 0x0A \<in> set d \<Longrightarrow>
   ParseCommandFromWebSocketDataWithSession isResize d sid cb =
     (TrimSpace (case cb sid of None \<Rightarrow> [] | Some b \<Rightarrow> b), cb(sid \<mapsto> []))"
  by (auto simp: ParseCommandFromWebSocketDataWithSession_def Let_def split: option.splits)

lemma Parse_backspace:
  "\<not> isResize d \<Longrightarrow> d = [CHR 0x08] \<or> d = [CHR 0x7F] \<Longrightarrow>
   ParseCommandFromWebSocketDataWithSession isResize d sid cb =
     ([], cb(sid \<mapsto> butlast (case cb sid of None \<Rightarrow> [] | Some b \<Rightarrow> b)))"
  by (auto simp: ParseCommandFromWebSocketDataWithSession_def Let_def map_upd_triv
      split: option.splits)

lemma Parse_accumulate:
  "\<not> isResize d \<Longrightarrow> \<not> (d \<noteq> [] \<and> hd d = CHR 0x1B) \<Longrightarrow>
   CHR 0x0D \<notin> set d \<Longrightarrow> CHR 0x0A \<notin> set d \<Longrightarrow> d \<noteq> [CHR 0x08] \<Longrightarrow> d \<noteq> [CHR 0x7F] \<Longrightarrow>
   ParseCommandFromWebSocketDataWithSession isResize d sid cb =
     ([], cb(sid \<mapsto> (case cb sid of None \<Rightarrow> [] | Some b \<Rightarrow> b) @ filter printable d))"
  by (auto simp: ParseCommandFromWebSocketDataWithSession_def Let_def split: option.splits)

lemma feed_la_bs_s_cr:
  assumes "\<not> isResize ''la''" "\<not> isResize [CHR 0x08]" "\<not> isResize ''s''" "\<not> isResize [CHR 0x0D]"
    and "(case cb sid of None \<Rightarrow> [] | Some b \<Rightarrow> b) = []"
  shows "fst (feed isResize sid [''la'', [CHR 0x08], ''s'', [CHR 0x0D]] cb) = [''ls''] \<and>
         snd (feed isResize sid [''la'', [CHR 0x08], ''s'', [CHR 0x0D]] cb) sid = Some []"
proof -
  have 1: "ParseCommandFromWebSocketDataWithSession isResize ''la'' sid cb = ([], cb(sid \<mapsto> ''la''))"
    using assms(1,5) Parse_accumulate [of isResize "''la''" sid cb]
    by (simp add: printable_def)
  have 2: "ParseCommandFromWebSocketDataWithSession isResize [CHR 0x08] sid (cb(sid \<mapsto> ''la'')) =
        ([], cb(sid \<mapsto> ''l''))"
    using assms(2) Parse_backspace [of isResize "[CHR 0x08]" sid "cb(sid \<mapsto> ''la'')"] by simp
  have 3: "ParseCommandFromWebSocketDataWithSession isResize ''s'' sid (cb(sid \<mapsto> ''l'')) =
        ([], cb(sid \<mapsto> ''ls''))"
    using assms(3) Parse_accumulate [of isResize "''s''" sid "cb(sid \<mapsto> ''l'')"]
    by (simp add: printable_def)
  have 4: "ParseCommandFromWebSocketDataWithSession isResize [CHR 0x0D] sid (cb(sid \<mapsto> ''ls'')) =
        (''ls'', cb(sid \<mapsto> []))"
    using assms(4) Parse_flush [of isResize "[CHR 0x0D]" sid "cb(sid \<mapsto> ''ls'')"]
    by (simp add: TrimSpace_def isSpace_def)
  show ?thesis by (simp add: 1 2 3 4)
qed

text \<open>
  C8 (amended). Per session id the parser keeps a line buffer. An input that is a JSON resize
  frame or starts with ESC changes nothing and flushes nothing. Otherwise: an input
  containing CR or LF flushes the buffer, with the white space at its ends trimmed, as the
  command text and clears the buffer; an input that is the single byte backspace or DEL
  retracts one byte; any other input appends its printable ASCII and Tab bytes. In
  particular the inputs "la", backspace, "s", CR, fed to a fresh session, flush "ls".
\<close>

theorem ParseCommand_line_buffer:
  fixes isResize :: "string \<Rightarrow> bool" and cb :: "string \<rightharpoonup> string"
  defines "buf \<equiv> \<lambda>sid. (case cb sid of None \<Rightarrow> [] | Some b \<Rightarrow> b)"
  shows
   "(isResize d \<or> (d \<noteq> [] \<and> hd d = CHR 0x1B) \<longrightarrow>
       ParseCommandFromWebSocketDataWithSession isResize d sid cb = ([], cb)) \<and>
    (\<not> isResize d \<and> \<not> (d \<noteq> [] \<and> hd d = CHR 0x1B) \<longrightarrow>
       (CHR 0x0D \<in> set d \<or> CHR 0x0A \<in> set d \<longrightarrow>
          ParseCommandFromWebSocketDataWithSession isResize d sid cb =
            (TrimSpace (buf sid), cb(sid \<mapsto> []))) \<and>
       (d = [CHR 0x08] \<or> d = [CHR 0x7F] \<longrightarrow>
          ParseCommandFromWebSocketDataWithSession isResize d sid cb =
            ([], cb(sid \<mapsto> butlast (buf sid)))) \<and>
       (CHR 0x0D \<notin> set d \<and> CHR 0x0A \<notin> set d \<and> d \<noteq> [CHR 0x08] \<and> d \<noteq> [CHR 0x7F] \<longrightarrow>
          ParseCommandFromWebSocketDataWithSession isResize d sid cb =
            ([], cb(sid \<mapsto> buf sid @ filter printable d)))) \<and>
    (\<not> isResize ''la'' \<and> \<not> isResize [CHR 0x08] \<and> \<not> isResize ''s'' \<and> \<not> isResize [CHR 0x0D] \<and>
     buf sid = [] \<longrightarrow>
       fst (feed isResize sid [''la'', [CHR 0x08], ''s'', [CHR 0x0D]] cb) = [''ls''] \<and>
       snd (feed isResize sid [''la'', [CHR 0x08], ''s'', [CHR 0x0D]] cb) sid = Some [])"
  unfolding buf_def
  using Parse_skip [of isResize d sid cb] Parse_flush [of isResize d sid cb]
    Parse_backspace [of isResize d sid cb] Parse_accumulate [of isResize d sid cb]
    feed_la_bs_s_cr [of isResize cb sid]
  by blast

theorem ParseCommand_line_buffer_witness:
  "fst (feed (\<lambda>d. d = resizeFrame) ''alice-pod-1'' [''la'', [CHR 0x08], ''s'', [CHR 0x0D]] Map.empty) = [''ls''] \<and>
   ParseCommandFromWebSocketDataWithSession (\<lambda>d. d = resizeFrame) resizeFrame ''alice-pod-1''
     [''alice-pod-1'' \<mapsto> ''l''] = ([], [''alice-pod-1'' \<mapsto> ''l'']) \<and>
   ParseCommandFromWebSocketDataWithSession (\<lambda>d. d = resizeFrame) ''ls -la'' ''alice-pod-1'' Map.empty =
     ([], [''alice-pod-1'' \<mapsto> ''ls -la''])"
  using ParseCommand_line_buffer [of "\<lambda>d. d = resizeFrame" resizeFrame "''alice-pod-1''" "[''alice-pod-1'' \<mapsto> ''l'']"]
    ParseCommand_line_buffer [of "\<lambda>d. d = resizeFrame" "''ls -la''" "''alice-pod-1''" Map.empty]
  by (simp add: printable_def resizeFrame_def)

text \<open>
  C8 as stated fails: the buffer accumulated from the input " a" is " a", and a CR flushes
  the command "a", not the accumulated buffer; and the printable bytes of an input that
  carries a CR are not accumulated: "ls -la" followed by CR in one input flushes nothing
  and leaves the buffer empty.
\<close>

theorem ParseCommand_flush_counterexample:
  "ParseCommandFromWebSocketDataWithSession (\<lambda>d. False) '' a'' ''s1'' Map.empty = ([], [''s1'' \<mapsto> '' a'']) \<and>
   fst (ParseCommandFromWebSocketDataWithSession (\<lambda>d. False) [CHR 0x0D] ''s1'' [''s1'' \<mapsto> '' a'']) = ''a'' \<and>
   fst (ParseCommandFromWebSocketDataWithSession (\<lambda>d. False) [CHR 0x0D] ''s1'' [''s1'' \<mapsto> '' a'']) \<noteq> '' a'' \<and>
   ParseCommandFromWebSocketDataWithSession (\<lambda>d. False) (''ls -la'' @ [CHR 0x0D]) ''s1'' Map.empty =
     ([], [''s1'' \<mapsto> []])"
  by (simp add: ParseCommandFromWebSocketDataWithSession_def printable_def TrimSpace_def isSpace_def)

section \<open>Properties of the Killer\<close>

lemma only_deletes_refl: "only_deletes w w"
  by (simp add: only_deletes_def)

lemma only_deletes_trans: "only_deletes w w1 \<Longrightarrow> only_deletes w1 w2 \<Longrightarrow> only_deletes w w2"
  by (auto simp: only_deletes_def)

lemma api_delete_only: "api_delete k ns n w = (r, w1) \<Longrightarrow> only_deletes w w1"
  by (auto simp: api_delete_def api_call_def Let_def only_deletes_def
      split: list.splits option.splits if_splits)

lemma DeleteDinDStatefulSet_only: "DeleteDinDStatefulSet n ns w = (r, w1) \<Longrightarrow> only_deletes w w1"
  unfolding DeleteDinDStatefulSet_def Let_def
  by (auto split: prod.splits api_result.splits dest!: api_delete_only
      intro: only_deletes_trans)

lemma DeleteDinDDeployment_only: "DeleteDinDDeployment n ns w = (r, w1) \<Longrightarrow> only_deletes w w1"
  unfolding DeleteDinDDeployment_def Let_def
  by (auto split: prod.splits api_result.splits dest!: api_delete_only
      intro: only_deletes_trans)


lemma UpdateItem_next_ok:
  "fst (redis_call w) = None \<Longrightarrow>
   UpdateItem item w =
     (None, item\<lparr>StatusUpdatedAt := clock w (reads w)\<rparr>,
      w\<lparr>reads := Suc (reads w), redis_errs := tl (redis_errs w),
        trace := trace w @ [HSet (item\<lparr>StatusUpdatedAt := clock w (reads w)\<rparr>) None],
        store := AList.update (ID item) (item\<lparr>StatusUpdatedAt := clock w (reads w)\<rparr>) (store w)\<rparr>)"
  by (cases "redis_errs w") (auto simp: UpdateItem_def time_Now_def redis_call_def Let_def)

lemma UpdateItem_next_fails:
  "fst (redis_call w) = Some e \<Longrightarrow>
   UpdateItem item w =
     (Some e, item\<lparr>StatusUpdatedAt := clock w (reads w)\<rparr>,
      w\<lparr>reads := Suc (reads w), redis_errs := tl (redis_errs w),
        trace := trace w @ [HSet (item\<lparr>StatusUpdatedAt := clock w (reads w)\<rparr>) (Some e)]\<rparr>)"
  by (cases "redis_errs w") (auto simp: UpdateItem_def time_Now_def redis_call_def Let_def)

lemma UpdateItem_trace:
  "\<exists>r. trace (snd (snd (UpdateItem item w))) =
     trace w @ [HSet (item\<lparr>StatusUpdatedAt := clock w (reads w)\<rparr>) r]"
  by (cases "redis_errs w")
     (auto simp: UpdateItem_def time_Now_def redis_call_def Let_def split: option.splits)

lemma processShutdownItem_ok:
  assumes "fst (redis_call w) = None"
  shows "\<exists>w2. processShutdownItem item ns w =
           (None, item\<lparr>Status := StatusTerminated, StatusUpdatedAt := clock w (reads w)\<rparr>, w2) \<and>
         only_deletes
           (w\<lparr>reads := Suc (reads w), redis_errs := tl (redis_errs w),
              trace := trace w @
                [HSet (item\<lparr>Status := StatusTerminated, StatusUpdatedAt := clock w (reads w)\<rparr>) None],
              store := AList.update (ID item)
                (item\<lparr>Status := StatusTerminated, StatusUpdatedAt := clock w (reads w)\<rparr>) (store w)\<rparr>)
           w2"
  unfolding processShutdownItem_def
  by (auto simp: UpdateItem_next_ok [OF assms] only_deletes_refl split: prod.splits
      dest: DeleteDinDStatefulSet_only DeleteDinDDeployment_only)

lemma processShutdownItem_fails:
  assumes "fst (redis_call w) = Some e"
  shows "processShutdownItem item ns w =
           (Some (''failed to update item status to terminating: '' @ e),
            item\<lparr>Status := StatusTerminated, StatusUpdatedAt := clock w (reads w)\<rparr>,
            w\<lparr>reads := Suc (reads w), redis_errs := tl (redis_errs w),
              trace := trace w @
                [HSet (item\<lparr>Status := StatusTerminated, StatusUpdatedAt := clock w (reads w)\<rparr>)
                   (Some e)]\<rparr>)"
  unfolding processShutdownItem_def
  by (simp add: UpdateItem_next_fails [OF assms])

lemma Killer_body_ok:
  assumes "fst (redis_call w) = None"
  shows "(\<exists>rest. new_events w (processShutdownItems_body ns item w) =
            HSet (item\<lparr>Status := StatusTerminated, StatusUpdatedAt := clock w (reads w)\<rparr>) None # rest \<and>
            list_all is_delete rest) \<and>
         map_of (store (processShutdownItems_body ns item w)) (ID item) =
           Some (item\<lparr>Status := StatusTerminated, StatusUpdatedAt := clock w (reads w)\<rparr>)"
proof -
  from processShutdownItem_ok [OF assms, of item ns] obtain w2 where
    p: "processShutdownItem item ns w =
           (None, item\<lparr>Status := StatusTerminated, StatusUpdatedAt := clock w (reads w)\<rparr>, w2)"
    and o: "only_deletes
           (w\<lparr>reads := Suc (reads w), redis_errs := tl (redis_errs w),
              trace := trace w @
                [HSet (item\<lparr>Status := StatusTerminated, StatusUpdatedAt := clock w (reads w)\<rparr>) None],
              store := AList.update (ID item)
                (item\<lparr>Status := StatusTerminated, StatusUpdatedAt := clock w (reads w)\<rparr>) (store w)\<rparr>)
           w2"
    by blast
  have b: "processShutdownItems_body ns item w = w2"
    by (simp add: processShutdownItems_body_def p)
  from o show ?thesis
    by (auto simp: b only_deletes_def new_events_def update_conv')
qed

lemma Killer_body_fails:
  assumes "fst (redis_call w) = Some e"
  shows "\<exists>it r2. new_events w (processShutdownItems_body ns item w) =
           [HSet (item\<lparr>Status := StatusTerminated, StatusUpdatedAt := clock w (reads w)\<rparr>) (Some e),
            HSet it r2]"
proof -
  let ?wF = "w\<lparr>reads := Suc (reads w), redis_errs := tl (redis_errs w),
              trace := trace w @
                [HSet (item\<lparr>Status := StatusTerminated, StatusUpdatedAt := clock w (reads w)\<rparr>)
                   (Some e)]\<rparr>"
  let ?itE = "item\<lparr>Status := StatusTerminated, StatusUpdatedAt := clock w (reads w)\<rparr>
               \<lparr>Status := StatusError, ErrorMessage := ''failed to update item status to terminating: '' @ e\<rparr>"
  have b: "processShutdownItems_body ns item w = snd (snd (UpdateItem ?itE ?wF))"
    by (simp add: processShutdownItems_body_def processShutdownItem_fails [OF assms])
  from UpdateItem_trace [of ?itE ?wF] show ?thesis
    by (auto simp: b new_events_def)
qed

text \<open>
  C1. When the Killer's loop processes a record, no deletion in the outer cluster is
  attempted unless the write of status \<open>terminated\<close> has gone through first; and once that
  write has gone through, whatever the deletions answer (also a failure), the events of the
  step are that write followed by deletions only, the stored record is the terminated one,
  and no write of status \<open>error\<close> is attempted.
\<close>

theorem Killer_terminated_before_delete:
  "((\<exists>e \<in> set (new_events w (processShutdownItems_body ns item w)). is_delete e) \<longrightarrow>
      fst (redis_call w) = None) \<and>
   (fst (redis_call w) = None \<longrightarrow>
      (\<exists>rest. new_events w (processShutdownItems_body ns item w) =
         HSet (item\<lparr>Status := StatusTerminated, StatusUpdatedAt := clock w (reads w)\<rparr>) None # rest \<and>
         list_all is_delete rest) \<and>
      map_of (store (processShutdownItems_body ns item w)) (ID item) =
        Some (item\<lparr>Status := StatusTerminated, StatusUpdatedAt := clock w (reads w)\<rparr>) \<and>
      \<not> list_ex (writes_status StatusError) (new_events w (processShutdownItems_body ns item w)))"
proof (intro conjI impI)
  assume d: "\<exists>e \<in> set (new_events w (processShutdownItems_body ns item w)). is_delete e"
  show "fst (redis_call w) = None"
  proof (cases "fst (redis_call w)")
    case None
    then show ?thesis .
  next
    case (Some e)
    from Killer_body_fails [OF Some, of ns item] d show ?thesis by auto
  qed
next
  assume ok: "fst (redis_call w) = None"
  from Killer_body_ok [OF ok, of ns item]
  show "\<exists>rest. new_events w (processShutdownItems_body ns item w) =
         HSet (item\<lparr>Status := StatusTerminated, StatusUpdatedAt := clock w (reads w)\<rparr>) None # rest \<and>
         list_all is_delete rest"
    by blast
  from Killer_body_ok [OF ok, of ns item]
  show "map_of (store (processShutdownItems_body ns item w)) (ID item) =
        Some (item\<lparr>Status := StatusTerminated, StatusUpdatedAt := clock w (reads w)\<rparr>)"
    by blast
  have nd: "\<not> writes_status StatusError e" if "is_delete e" for e
    using that by (cases e) auto
  from Killer_body_ok [OF ok, of ns item] obtain rest where
    "new_events w (processShutdownItems_body ns item w) =
         HSet (item\<lparr>Status := StatusTerminated, StatusUpdatedAt := clock w (reads w)\<rparr>) None # rest"
    "list_all is_delete rest"
    by blast
  then show "\<not> list_ex (writes_status StatusError) (new_events w (processShutdownItems_body ns item w))"
    using nd by (auto simp: list_ex_iff list_all_iff)
qed


lemma api_delete_quiet:
  "api_errs w = [] \<Longrightarrow>
   api_delete k ns n w =
     (found k ns n w,
      w\<lparr>trace := trace w @ [ApiDelete k ns n (found k ns n w)],
        objects := removeAll (k, ns, n) (objects w)\<rparr>)"
  by (auto simp: api_delete_def api_call_def Let_def found_def)

lemma DeleteDinDStatefulSet_quiet:
  assumes "api_errs w = []"
  shows "DeleteDinDStatefulSet n ns w =
     (None,
      w\<lparr>trace := trace w @
          [ApiDelete StatefulSets ns n (found StatefulSets ns n w),
           ApiDelete Services ns n (found Services ns n w),
           ApiDelete PersistentVolumeClaims ns (''docker-graph-storage-'' @ n @ ''-0'')
             (found PersistentVolumeClaims ns (''docker-graph-storage-'' @ n @ ''-0'') w)],
        objects := removeAll (PersistentVolumeClaims, ns, ''docker-graph-storage-'' @ n @ ''-0'')
          (removeAll (Services, ns, n) (removeAll (StatefulSets, ns, n) (objects w)))\<rparr>)"
  unfolding DeleteDinDStatefulSet_def Let_def
  by (simp add: api_delete_quiet assms found_def split: api_result.splits)

lemma DeleteDinDDeployment_quiet:
  assumes "api_errs w = []"
  shows "DeleteDinDDeployment n ns w =
     (None,
      w\<lparr>trace := trace w @
          [ApiDelete Deployments ns n (found Deployments ns n w),
           ApiDelete Services ns n (found Services ns n w)],
        objects := removeAll (Services, ns, n) (removeAll (Deployments, ns, n) (objects w))\<rparr>)"
  unfolding DeleteDinDDeployment_def Let_def
  by (simp add: api_delete_quiet assms found_def split: api_result.splits)


lemma redis_call_all_ok: "set (redis_errs w) \<subseteq> {None} \<Longrightarrow> fst (redis_call w) = None"
  by (cases "redis_errs w") (auto simp: redis_call_def)

lemma set_tl_subset: "set xs \<subseteq> A \<Longrightarrow> set (tl xs) \<subseteq> A"
  by (cases xs) auto

lemma processShutdownItem_quiet:
  assumes ok: "fst (redis_call w) = None" and q: "api_errs w = []" and p: "PodID item \<noteq> []"
  shows "processShutdownItem item ns w =
     (None, item\<lparr>Status := StatusTerminated, StatusUpdatedAt := clock w (reads w)\<rparr>,
      w\<lparr>reads := Suc (reads w), redis_errs := tl (redis_errs w),
        store := AList.update (ID item)
          (item\<lparr>Status := StatusTerminated, StatusUpdatedAt := clock w (reads w)\<rparr>) (store w),
        trace := trace w @
          HSet (item\<lparr>Status := StatusTerminated, StatusUpdatedAt := clock w (reads w)\<rparr>) None #
          (if WorkloadType item = ''deployment''
           then [ApiDelete Deployments ns (PodID item) (found Deployments ns (PodID item) w),
                 ApiDelete Services ns (PodID item) (found Services ns (PodID item) w)]
           else [ApiDelete StatefulSets ns (PodID item) (found StatefulSets ns (PodID item) w),
                 ApiDelete Services ns (PodID item) (found Services ns (PodID item) w),
                 ApiDelete PersistentVolumeClaims ns (''docker-graph-storage-'' @ PodID item @ ''-0'')
                   (found PersistentVolumeClaims ns (''docker-graph-storage-'' @ PodID item @ ''-0'') w)]),
        objects :=
          (if WorkloadType item = ''deployment''
           then removeAll (Services, ns, PodID item)
                  (removeAll (Deployments, ns, PodID item) (objects w))
           else removeAll (PersistentVolumeClaims, ns, ''docker-graph-storage-'' @ PodID item @ ''-0'')
                  (removeAll (Services, ns, PodID item)
                    (removeAll (StatefulSets, ns, PodID item) (objects w))))\<rparr>)"
  unfolding processShutdownItem_def
  using p q
  by (simp add: UpdateItem_next_ok [OF ok] DeleteDinDStatefulSet_quiet DeleteDinDDeployment_quiet
      found_def)

text \<open>
  C9. With a queue that accepts the writes, processing the same record twice returns no
  error either time and leaves the record \<open>terminated\<close> both times, whatever the outer API
  answers. When the outer API does not fail, the deletions of the second pass all answer
  \<open>NotFound\<close> (workload, service and, for a stateful set, the claim
  \<open>docker-graph-storage-{name}-0\<close>), and the delete functions return no error whether or not
  the objects exist.
\<close>

theorem Killer_twice_terminated:
  fixes w :: world and item :: QueueItem and ns :: string
  assumes "set (redis_errs w) \<subseteq> {None}"
  defines "w1 \<equiv> snd (snd (processShutdownItem item ns w))"
  defines "w2 \<equiv> snd (snd (processShutdownItem item ns w1))"
  shows "fst (processShutdownItem item ns w) = None \<and>
         fst (processShutdownItem item ns w1) = None \<and>
         map_of (store w1) (ID item) =
           Some (item\<lparr>Status := StatusTerminated, StatusUpdatedAt := clock w (reads w)\<rparr>) \<and>
         map_of (store w2) (ID item) =
           Some (item\<lparr>Status := StatusTerminated, StatusUpdatedAt := clock w (Suc (reads w))\<rparr>) \<and>
         (api_errs w = [] \<and> PodID item \<noteq> [] \<longrightarrow>
            new_events w1 w2 =
              HSet (item\<lparr>Status := StatusTerminated, StatusUpdatedAt := clock w (Suc (reads w))\<rparr>) None #
              (if WorkloadType item = ''deployment''
               then [ApiDelete Deployments ns (PodID item) NotFound,
                     ApiDelete Services ns (PodID item) NotFound]
               else [ApiDelete StatefulSets ns (PodID item) NotFound,
                     ApiDelete Services ns (PodID item) NotFound,
                     ApiDelete PersistentVolumeClaims ns
                       (''docker-graph-storage-'' @ PodID item @ ''-0'') NotFound])) \<and>
         (api_errs w = [] \<longrightarrow>
            fst (DeleteDinDStatefulSet name ns w) = None \<and>
            fst (DeleteDinDDeployment name ns w) = None)"
proof -
  have ok: "fst (redis_call w) = None"
    using assms(1) by (rule redis_call_all_ok)
  from processShutdownItem_ok [OF ok, of item ns] obtain v1 where
    p1: "processShutdownItem item ns w =
           (None, item\<lparr>Status := StatusTerminated, StatusUpdatedAt := clock w (reads w)\<rparr>, v1)"
    and o1: "only_deletes
           (w\<lparr>reads := Suc (reads w), redis_errs := tl (redis_errs w),
              trace := trace w @
                [HSet (item\<lparr>Status := StatusTerminated, StatusUpdatedAt := clock w (reads w)\<rparr>) None],
              store := AList.update (ID item)
                (item\<lparr>Status := StatusTerminated, StatusUpdatedAt := clock w (reads w)\<rparr>) (store w)\<rparr>)
           v1"
    by blast
  have v1: "w1 = v1" by (simp add: w1_def p1)
  have "redis_errs w1 = tl (redis_errs w)"
    using o1 by (simp add: v1 only_deletes_def)
  then have "set (redis_errs w1) \<subseteq> {None}"
    using set_tl_subset [OF assms(1)] by simp
  then have ok1: "fst (redis_call w1) = None"
    by (rule redis_call_all_ok)
  have c1: "clock w1 = clock w" "reads w1 = Suc (reads w)"
    using o1 by (auto simp: v1 only_deletes_def)
  from processShutdownItem_ok [OF ok1, of item ns] obtain v2 where
    p2: "processShutdownItem item ns w1 =
           (None, item\<lparr>Status := StatusTerminated, StatusUpdatedAt := clock w1 (reads w1)\<rparr>, v2)"
    and o2: "only_deletes
           (w1\<lparr>reads := Suc (reads w1), redis_errs := tl (redis_errs w1),
              trace := trace w1 @
                [HSet (item\<lparr>Status := StatusTerminated, StatusUpdatedAt := clock w1 (reads w1)\<rparr>) None],
              store := AList.update (ID item)
                (item\<lparr>Status := StatusTerminated, StatusUpdatedAt := clock w1 (reads w1)\<rparr>) (store w1)\<rparr>)
           v2"
    by blast
  have v2: "w2 = v2" by (simp add: w2_def p2)
  have s1: "map_of (store w1) (ID item) =
           Some (item\<lparr>Status := StatusTerminated, StatusUpdatedAt := clock w (reads w)\<rparr>)"
    using o1 by (simp add: v1 only_deletes_def update_conv')
  have s2: "map_of (store w2) (ID item) =
           Some (item\<lparr>Status := StatusTerminated, StatusUpdatedAt := clock w (Suc (reads w))\<rparr>)"
    using o2 c1 by (simp add: v2 only_deletes_def update_conv')
  have ev: "new_events w1 w2 =
              HSet (item\<lparr>Status := StatusTerminated, StatusUpdatedAt := clock w (Suc (reads w))\<rparr>) None #
              (if WorkloadType item = ''deployment''
               then [ApiDelete Deployments ns (PodID item) NotFound,
                     ApiDelete Services ns (PodID item) NotFound]
               else [ApiDelete StatefulSets ns (PodID item) NotFound,
                     ApiDelete Services ns (PodID item) NotFound,
                     ApiDelete PersistentVolumeClaims ns
                       (''docker-graph-storage-'' @ PodID item @ ''-0'') NotFound])"
    if q: "api_errs w = []" and p: "PodID item \<noteq> []"
  proof -
    note e1 = processShutdownItem_quiet [OF ok q p, of ns]
    have q1: "api_errs w1 = []" by (simp add: w1_def e1 q)
    note e2 = processShutdownItem_quiet [OF ok1 q1 p, of ns]
    show ?thesis
      unfolding w2_def e2 new_events_def
      by (simp add: w1_def e1 found_def)
  qed
  have d: "fst (DeleteDinDStatefulSet name ns w) = None \<and> fst (DeleteDinDDeployment name ns w) = None"
    if q: "api_errs w = []"
    by (simp add: DeleteDinDStatefulSet_quiet [OF q] DeleteDinDDeployment_quiet [OF q])
  show ?thesis
    using p1 p2 s1 s2 ev d by simp
qed


theorem Killer_terminated_before_delete_witness:
  "new_events world1_api_down (processShutdownItems_body ''default'' item1 world1_api_down) =
     [HSet (item1\<lparr>Status := StatusTerminated, StatusUpdatedAt := 1000\<rparr>) None,
      ApiDelete StatefulSets ''default'' ''k8s-playground-0a1b2c3d'' (Failed ''connection refused'')] \<and>
   map_of (store (processShutdownItems_body ''default'' item1 world1_api_down)) ''0a1b2c3d-0000'' =
     Some (item1\<lparr>Status := StatusTerminated, StatusUpdatedAt := 1000\<rparr>)"
proof -
  have ok: "fst (redis_call world1_api_down) = None"
    by (simp add: redis_call_def world1_api_down_def world1_def world0_def)
  have ev: "new_events world1_api_down (processShutdownItems_body ''default'' item1 world1_api_down) =
     [HSet (item1\<lparr>Status := StatusTerminated, StatusUpdatedAt := 1000\<rparr>) None,
      ApiDelete StatefulSets ''default'' ''k8s-playground-0a1b2c3d'' (Failed ''connection refused'')]"
    by (simp add: new_events_def processShutdownItems_body_def processShutdownItem_def
        UpdateItem_def time_Now_def redis_call_def Let_def DeleteDinDStatefulSet_def
        api_delete_def api_call_def world1_api_down_def world1_def world0_def item1_def item0_def)
  have c: "clock world1_api_down (reads world1_api_down) = 1000" "ID item1 = ''0a1b2c3d-0000''"
    by (simp_all add: world1_api_down_def world1_def world0_def item1_def item0_def)
  show ?thesis
    using Killer_terminated_before_delete [of world1_api_down "''default''" item1] ok ev c
    by simp
qed

theorem Killer_twice_terminated_witness:
  "fst (processShutdownItem item1 ''default'' world1) = None \<and>
   fst (processShutdownItem item1 ''default'' (snd (snd (processShutdownItem item1 ''default'' world1)))) = None \<and>
   map_of (store (snd (snd (processShutdownItem item1 ''default''
      (snd (snd (processShutdownItem item1 ''default'' world1))))))) ''0a1b2c3d-0000'' =
     Some (item1\<lparr>Status := StatusTerminated, StatusUpdatedAt := 1001\<rparr>) \<and>
   new_events (snd (snd (processShutdownItem item1 ''default'' world1)))
     (snd (snd (processShutdownItem item1 ''default''
        (snd (snd (processShutdownItem item1 ''default'' world1)))))) =
     [HSet (item1\<lparr>Status := StatusTerminated, StatusUpdatedAt := 1001\<rparr>) None,
      ApiDelete StatefulSets ''default'' ''k8s-playground-0a1b2c3d'' NotFound,
      ApiDelete Services ''default'' ''k8s-playground-0a1b2c3d'' NotFound,
      ApiDelete PersistentVolumeClaims ''default''
        ''docker-graph-storage-k8s-playground-0a1b2c3d-0'' NotFound]"
proof -
  have h: "set (redis_errs world1) \<subseteq> {None}"
    by (simp add: world1_def world0_def)
  have c: "api_errs world1 = []" "PodID item1 = ''k8s-playground-0a1b2c3d''"
    "WorkloadType item1 = ''statefulset''" "ID item1 = ''0a1b2c3d-0000''"
    "clock world1 (reads world1) = 1000" "clock world1 (Suc (reads world1)) = 1001"
    by (simp_all add: world1_def world0_def item1_def item0_def)
  show ?thesis
    using Killer_twice_terminated [OF h, of item1 "''default''" "''k8s-playground-0a1b2c3d''"] c
    by simp
qed

section \<open>Properties of the Collector\<close>

lemma ShouldBeCollected_eq:
  "ShouldBeCollected q w =
     (if Status q \<in> {StatusShutdown, StatusTerminated, StatusError} then (False, w)
      else (ExpiresAt q < clock w (reads w), w\<lparr>reads := Suc (reads w)\<rparr>))"
  by (simp add: ShouldBeCollected_def IsExpired_def time_Now_def)

lemma UpdateItem_other_keys:
  "k \<noteq> ID item \<Longrightarrow> map_of (store (snd (snd (UpdateItem item w)))) k = map_of (store w) k"
  by (cases "redis_errs w")
     (auto simp: UpdateItem_def time_Now_def redis_call_def Let_def update_conv'
       split: option.splits)

lemma UpdateItem_ID: "ID (fst (snd (UpdateItem item w))) = ID item"
  by (cases "redis_errs w")
     (auto simp: UpdateItem_def time_Now_def redis_call_def Let_def split: option.splits)

lemma DeleteItem_other_keys:
  "k \<noteq> ident \<Longrightarrow> map_of (store (snd (DeleteItem ident w))) k = map_of (store w) k"
  by (cases "redis_errs w")
     (auto simp: DeleteItem_def redis_call_def Let_def delete_conv' split: option.splits)

lemma cleanupItems_body_eq:
  "cleanupItems_body now item w =
     (if Status item \<in> {StatusShutdown, StatusTerminated, StatusError}
      then (if Status item = StatusTerminated \<and> now - StatusUpdatedAt item > terminatedGracePeriod
            then snd (DeleteItem (ID item) w) else w)
      else if ExpiresAt item < clock w (reads w)
      then (let u = UpdateItem (item\<lparr>Status := StatusShutdown\<rparr>) (w\<lparr>reads := Suc (reads w)\<rparr>)
            in if fst u = None then snd (snd u)
               else snd (snd (UpdateItem
                 (fst (snd u)\<lparr>Status := StatusError,
                    ErrorMessage := ''Failed to mark for shutdown during collection''\<rparr>)
                 (snd (snd u)))))
      else w\<lparr>reads := Suc (reads w)\<rparr>)"
  by (auto simp: cleanupItems_body_def ShouldBeCollected_eq Let_def
      split: prod.splits option.splits)

lemma cleanupItems_body_other_keys:
  assumes "k \<noteq> ID item"
  shows "map_of (store (cleanupItems_body now item w)) k = map_of (store w) k"
  using assms
  by (simp add: cleanupItems_body_eq Let_def DeleteItem_other_keys UpdateItem_other_keys
      UpdateItem_ID)

lemma cleanupItems_fold_other_keys:
  "k \<notin> ID ` set its \<Longrightarrow>
   map_of (store (fold (cleanupItems_body now) its w)) k = map_of (store w) k"
  by (induction its arbitrary: w) (auto simp: cleanupItems_body_other_keys)


lemma DeleteItem_ok:
  "set (redis_errs w) \<subseteq> {None} \<Longrightarrow>
   DeleteItem ident w =
     (None, w\<lparr>redis_errs := tl (redis_errs w), trace := trace w @ [HDel ident None],
               store := AList.delete ident (store w)\<rparr>)"
  by (cases "redis_errs w") (auto simp: DeleteItem_def redis_call_def Let_def)

lemma cleanupItems_body_ok:
  assumes ok: "set (redis_errs w) \<subseteq> {None}"
  shows "set (redis_errs (cleanupItems_body now it w)) \<subseteq> {None} \<and>
         clock (cleanupItems_body now it w) = clock w \<and>
         reads w \<le> reads (cleanupItems_body now it w) \<and>
         (Status it \<notin> {StatusShutdown, StatusTerminated, StatusError} \<and>
          ExpiresAt it < clock w (reads w) \<longrightarrow>
            map_of (store (cleanupItems_body now it w)) (ID it) =
              Some (it\<lparr>Status := StatusShutdown, StatusUpdatedAt := clock w (Suc (reads w))\<rparr>)) \<and>
         (Status it \<notin> {StatusShutdown, StatusTerminated, StatusError} \<and>
          \<not> ExpiresAt it < clock w (reads w) \<longrightarrow>
            store (cleanupItems_body now it w) = store w) \<and>
         (Status it \<in> {StatusShutdown, StatusTerminated, StatusError} \<longrightarrow>
            store (cleanupItems_body now it w) = store w \<or>
            Status it = StatusTerminated \<and>
            map_of (store (cleanupItems_body now it w)) (ID it) = None)"
proof -
  have ok1: "fst (redis_call (w\<lparr>reads := Suc (reads w)\<rparr>)) = None"
    using ok by (cases "redis_errs w") (auto simp: redis_call_def)
  note u = UpdateItem_next_ok [OF ok1, of "it\<lparr>Status := StatusShutdown\<rparr>"]
  show ?thesis
    using set_tl_subset [OF ok] ok
    by (auto simp: cleanupItems_body_eq Let_def u DeleteItem_ok update_conv' delete_conv')
qed

lemma cleanupItems_fold:
  assumes "distinct (map ID its)" and "set (redis_errs w) \<subseteq> {None}" and "it \<in> set its"
  shows "(Status it \<notin> {StatusShutdown, StatusTerminated, StatusError} \<and>
          (\<forall>n \<ge> reads w. ExpiresAt it < clock w n) \<longrightarrow>
            (\<exists>t. map_of (store (fold (cleanupItems_body now) its w)) (ID it) =
               Some (it\<lparr>Status := StatusShutdown, StatusUpdatedAt := t\<rparr>))) \<and>
         (Status it \<in> {StatusShutdown, StatusTerminated, StatusError} \<or>
          (\<forall>n \<ge> reads w. clock w n \<le> ExpiresAt it) \<longrightarrow>
            map_of (store (fold (cleanupItems_body now) its w)) (ID it) = map_of (store w) (ID it) \<or>
            Status it = StatusTerminated \<and>
            map_of (store (fold (cleanupItems_body now) its w)) (ID it) = None)"
  using assms
proof (induction its arbitrary: w)
  case Nil
  then show ?case by simp
next
  case (Cons x xs)
  let ?w1 = "cleanupItems_body now x w"
  note b = cleanupItems_body_ok [OF Cons.prems(2), of now x]
  have f: "fold (cleanupItems_body now) (x # xs) w = fold (cleanupItems_body now) xs ?w1"
    by simp
  show ?case
  proof (cases "it = x")
    case True
    have "ID it \<notin> ID ` set xs"
      using Cons.prems(1) True by auto
    then have k: "map_of (store (fold (cleanupItems_body now) xs ?w1)) (ID it) =
        map_of (store ?w1) (ID it)"
      by (rule cleanupItems_fold_other_keys)
    have a: "\<exists>t. map_of (store ?w1) (ID it) =
               Some (it\<lparr>Status := StatusShutdown, StatusUpdatedAt := t\<rparr>)"
      if "Status it \<notin> {StatusShutdown, StatusTerminated, StatusError}"
        and "\<forall>n \<ge> reads w. ExpiresAt it < clock w n"
    proof -
      have "ExpiresAt it < clock w (reads w)" using that(2) by simp
      with b that(1) True show ?thesis by blast
    qed
    have c: "map_of (store ?w1) (ID it) = map_of (store w) (ID it) \<or>
            Status it = StatusTerminated \<and> map_of (store ?w1) (ID it) = None"
      if "Status it \<in> {StatusShutdown, StatusTerminated, StatusError} \<or>
          (\<forall>n \<ge> reads w. clock w n \<le> ExpiresAt it)"
    proof (cases "Status it \<in> {StatusShutdown, StatusTerminated, StatusError}")
      case t: True
      with b \<open>it = x\<close> have "store ?w1 = store w \<or>
            Status it = StatusTerminated \<and> map_of (store ?w1) (ID it) = None"
        by blast
      then show ?thesis by auto
    next
      case f: False
      with that have "clock w (reads w) \<le> ExpiresAt it" by simp
      then have "\<not> ExpiresAt it < clock w (reads w)" by simp
      with b f \<open>it = x\<close> have "store ?w1 = store w" by blast
      then show ?thesis by simp
    qed
    show ?thesis
      unfolding f k using a c by blast
  next
    case False
    then have mem: "it \<in> set xs" using Cons.prems(3) by simp
    have "ID x \<notin> ID ` set xs" using Cons.prems(1) by auto
    with mem have ne: "ID it \<noteq> ID x" by (metis imageI)
    have d: "distinct (map ID xs)" using Cons.prems(1) by simp
    have ok1: "set (redis_errs ?w1) \<subseteq> {None}" using b by blast
    have c: "clock ?w1 = clock w" "reads w \<le> reads ?w1" using b by blast+
    have s: "map_of (store ?w1) (ID it) = map_of (store w) (ID it)"
      using ne by (rule cleanupItems_body_other_keys)
    have q1: "\<forall>n \<ge> reads ?w1. ExpiresAt it < clock ?w1 n"
      if "\<forall>n \<ge> reads w. ExpiresAt it < clock w n"
      using that c by (metis le_trans)
    have q2: "\<forall>n \<ge> reads ?w1. clock ?w1 n \<le> ExpiresAt it"
      if "\<forall>n \<ge> reads w. clock w n \<le> ExpiresAt it"
      using that c by (metis le_trans)
    from Cons.IH [OF d ok1 mem] show ?thesis
      unfolding f s [symmetric] using q1 q2 by blast
  qed
qed


lemma cleanupItems_ok:
  assumes "set (redis_errs w) \<subseteq> {None}"
  shows "snd (cleanupItems w) =
     fold (cleanupItems_body (clock w (reads w))) (map snd (store w))
       (w\<lparr>redis_errs := tl (redis_errs w), reads := Suc (reads w)\<rparr>)"
  using assms
  by (cases w) (auto simp: cleanupItems_def GetAllItems_def redis_call_def time_Now_def Let_def
      split: list.splits)

text \<open>
  C2 (amended). On a Collector tick over a queue that accepts the writes, every record whose
  status is not one of shutdown, terminated, error and whose expiry lies strictly before the
  clock readings of the tick is stored with status \<open>shutdown\<close>; a record whose status is one
  of the three, or whose expiry is not before any reading of the tick, is not transitioned
  by the expiry rule: it is left as it was, or, being terminated, deleted.
\<close>

theorem Collector_expiry:
  assumes "distinct (map fst (store w))"
    and "\<forall>(k, it) \<in> set (store w). ID it = k"
    and "set (redis_errs w) \<subseteq> {None}"
    and "(k, it) \<in> set (store w)"
  shows "(Status it \<notin> {StatusShutdown, StatusTerminated, StatusError} \<and>
          (\<forall>n \<ge> reads w. ExpiresAt it < clock w n) \<longrightarrow>
            (\<exists>t. map_of (store (snd (cleanupItems w))) k =
               Some (it\<lparr>Status := StatusShutdown, StatusUpdatedAt := t\<rparr>))) \<and>
         (Status it \<in> {StatusShutdown, StatusTerminated, StatusError} \<or>
          (\<forall>n \<ge> reads w. clock w n \<le> ExpiresAt it) \<longrightarrow>
            map_of (store (snd (cleanupItems w))) k = Some it \<or>
            Status it = StatusTerminated \<and> map_of (store (snd (cleanupItems w))) k = None)"
proof -
  let ?w2 = "w\<lparr>redis_errs := tl (redis_errs w), reads := Suc (reads w)\<rparr>"
  let ?its = "map snd (store w)"
  have ids: "map ID ?its = map fst (store w)"
    using assms(2) by (induction "store w") auto
  have d: "distinct (map ID ?its)"
    using assms(1) by (simp only: ids)
  have ok2: "set (redis_errs ?w2) \<subseteq> {None}"
    using set_tl_subset [OF assms(3)] by simp
  have mem: "it \<in> set ?its"
    using assms(4) by force
  have k: "ID it = k"
    using assms(2,4) by auto
  have cur: "map_of (store ?w2) (ID it) = Some it"
    using assms(1,4) k by simp
  have q1: "\<forall>n \<ge> reads ?w2. ExpiresAt it < clock ?w2 n"
    if "\<forall>n \<ge> reads w. ExpiresAt it < clock w n"
    using that by simp
  have q2: "\<forall>n \<ge> reads ?w2. clock ?w2 n \<le> ExpiresAt it"
    if "\<forall>n \<ge> reads w. clock w n \<le> ExpiresAt it"
    using that by simp
  note F = cleanupItems_fold [OF d ok2 mem, of "clock w (reads w)", unfolded cur]
  show ?thesis
    unfolding cleanupItems_ok [OF assms(3)] k [symmetric] using F q1 q2 by blast
qed


lemma eval_world2:
  "store (snd (cleanupItems world2)) =
     [(''0a1b2c3d-0000'', item0\<lparr>Status := StatusShutdown, StatusUpdatedAt := 1002\<rparr>),
      (''ffff0000-1111'', item2)]"
  by (simp add: cleanupItems_def GetAllItems_def redis_call_def time_Now_def Let_def
      cleanupItems_body_def ShouldBeCollected_def IsExpired_def UpdateItem_def
      world2_def world0_def item2_def item0_def)

theorem Collector_expiry_witness:
  "map_of (store (snd (cleanupItems world2))) ''0a1b2c3d-0000'' =
     Some (item0\<lparr>Status := StatusShutdown, StatusUpdatedAt := 1002\<rparr>) \<and>
   map_of (store (snd (cleanupItems world2))) ''ffff0000-1111'' = Some item2"
proof -
  have d: "distinct (map fst (store world2))"
    by (simp add: world2_def world0_def)
  have i: "\<forall>(k, it) \<in> set (store world2). ID it = k"
    by (simp add: world2_def world0_def item2_def item0_def)
  have r: "set (redis_errs world2) \<subseteq> {None}"
    by (simp add: world2_def world0_def)
  have m0: "(''0a1b2c3d-0000'', item0) \<in> set (store world2)"
    by (simp add: world2_def world0_def)
  have m2: "(''ffff0000-1111'', item2) \<in> set (store world2)"
    by (simp add: world2_def world0_def)
  have e0: "Status item0 \<notin> {StatusShutdown, StatusTerminated, StatusError} \<and>
          (\<forall>n \<ge> reads world2. ExpiresAt item0 < clock world2 n)"
    by (simp add: world2_def world0_def item0_def)
  note t0 = Collector_expiry [OF d i r m0]
  note t2 = Collector_expiry [OF d i r m2]
  show ?thesis
    using t0 e0 t2 by (simp add: eval_world2)
qed

text \<open>
  C2 as stated fails at the instant of expiry: with now = expiresAt the available record is
  not collected (\<open>IsExpired\<close> asks for now strictly after expiresAt).
\<close>

theorem Collector_at_expiry_counterexample:
  "Status item0 = StatusAvailable \<and>
   (\<forall>n. ExpiresAt item0 \<le> clock world_at_expiry n) \<and>
   map_of (store world_at_expiry) ''0a1b2c3d-0000'' = Some item0 \<and>
   map_of (store (snd (cleanupItems world_at_expiry))) ''0a1b2c3d-0000'' = Some item0"
  by (simp add: cleanupItems_def GetAllItems_def redis_call_def time_Now_def Let_def
      cleanupItems_body_def ShouldBeCollected_def IsExpired_def UpdateItem_def
      world_at_expiry_def world0_def item0_def)

section \<open>Refused writes in the loops\<close>

lemma UpdateItem_fails_then:
  "redis_errs w = Some e # rs \<Longrightarrow>
   UpdateItem item w =
     (Some e, item\<lparr>StatusUpdatedAt := clock w (reads w)\<rparr>,
      w\<lparr>reads := Suc (reads w), redis_errs := rs,
        trace := trace w @ [HSet (item\<lparr>StatusUpdatedAt := clock w (reads w)\<rparr>) (Some e)]\<rparr>)"
  by (auto simp: UpdateItem_def time_Now_def redis_call_def Let_def)

lemma UpdateItem_store_fails:
  "redis_errs w = Some e # rs \<Longrightarrow> store (snd (snd (UpdateItem item w))) = store w"
  by (simp add: UpdateItem_fails_then)

lemma UpdateItem_store_ok:
  "redis_errs w = [] \<or> (\<exists>rs. redis_errs w = None # rs) \<Longrightarrow> ID item = k \<Longrightarrow>
   map_of (store (snd (snd (UpdateItem item w)))) k =
     Some (item\<lparr>StatusUpdatedAt := clock w (reads w)\<rparr>)"
  by (auto simp: UpdateItem_def time_Now_def redis_call_def Let_def update_conv')

lemma Collector_write_fails:
  assumes f: "redis_errs w = Some e # rs"
    and c: "Status item \<notin> {StatusShutdown, StatusTerminated, StatusError}"
       "ExpiresAt item < clock w (reads w)"
  shows "((\<exists>e2 rs'. rs = Some e2 # rs') \<longrightarrow> store (cleanupItems_body now item w) = store w) \<and>
         (rs = [] \<or> (\<exists>rs'. rs = None # rs') \<longrightarrow>
            map_of (store (cleanupItems_body now item w)) (ID item) =
              Some (item\<lparr>Status := StatusError,
                      ErrorMessage := ''Failed to mark for shutdown during collection'',
                      StatusUpdatedAt := clock w (Suc (Suc (reads w)))\<rparr>))"
proof -
  let ?w1 = "w\<lparr>reads := Suc (reads w)\<rparr>"
  have f1: "redis_errs ?w1 = Some e # rs" using f by simp
  note u = UpdateItem_fails_then [OF f1, of "item\<lparr>Status := StatusShutdown\<rparr>"]
  show ?thesis
    using c
    by (auto simp: cleanupItems_body_eq Let_def u UpdateItem_store_fails UpdateItem_store_ok)
qed

lemma Killer_write_fails:
  assumes f: "redis_errs w = Some e # rs"
  shows "((\<exists>e2 rs'. rs = Some e2 # rs') \<longrightarrow> store (processShutdownItems_body ns item w) = store w) \<and>
         (rs = [] \<or> (\<exists>rs'. rs = None # rs') \<longrightarrow>
            map_of (store (processShutdownItems_body ns item w)) (ID item) =
              Some (item\<lparr>Status := StatusError,
                      ErrorMessage := ''failed to update item status to terminating: '' @ e,
                      StatusUpdatedAt := clock w (Suc (reads w))\<rparr>))"
proof -
  note u = UpdateItem_fails_then [OF f, of "item\<lparr>Status := StatusTerminated\<rparr>"]
  show ?thesis
    by (auto simp: processShutdownItems_body_def processShutdownItem_def u
        UpdateItem_store_fails UpdateItem_store_ok)
qed

lemma Generator_write_fails:
  assumes f: "redis_errs w = Some e # rs"
  shows "((\<exists>e2 rs'. rs = Some e2 # rs') \<longrightarrow>
            store (snd (processPendingItems_body cfg evs_of ns item w)) = store w) \<and>
         (rs = [] \<or> (\<exists>rs'. rs = None # rs') \<longrightarrow>
            map_of (store (snd (processPendingItems_body cfg evs_of ns item w))) (ID item) =
              Some (item\<lparr>Status := StatusError,
                      ErrorMessage := ''failed to update item status to generating: '' @ e,
                      StatusUpdatedAt := clock w (Suc (reads w))\<rparr>))"
proof -
  note u = UpdateItem_fails_then [OF f, of "item\<lparr>Status := StatusGenerating\<rparr>"]
  show ?thesis
    by (auto simp: processPendingItems_body_def processItem_def u
        UpdateItem_store_fails UpdateItem_store_ok)
qed

lemma answered_skip: "\<not> refused ev \<Longrightarrow> answered k (ev # evs) = answered k evs"
  by (cases evs) auto

lemma answered_quiet: "list_all (\<lambda>ev. \<not> refused ev) xs \<Longrightarrow> answered k (xs @ ys) = answered k ys"
  by (induction xs) (auto simp: answered_skip)

lemma is_delete_quiet: "list_all is_delete evs \<Longrightarrow> list_all (\<lambda>ev. \<not> refused ev) evs"
proof (induction evs)
  case Nil
  then show ?case by simp
next
  case (Cons ev evs)
  then show ?case by (cases ev) auto
qed

lemma answered_tail:
  "length ys \<le> 1 \<Longrightarrow> ID it = k \<Longrightarrow> Status it = StatusError \<Longrightarrow> answered k (ys @ [HSet it r])"
proof (cases ys)
  case Nil
  assume "ID it = k" "Status it = StatusError"
  then show ?thesis using Nil by simp
next
  case (Cons y zs)
  assume "length ys \<le> 1" "ID it = k" "Status it = StatusError"
  then show ?thesis using Cons by simp
qed

lemma UpdateItem_fst: "fst (UpdateItem item w) = fst (redis_call w)"
  by (cases "redis_errs w")
     (auto simp: UpdateItem_def time_Now_def redis_call_def Let_def split: option.splits)

lemma UpdateItem_item:
  "fst (snd (UpdateItem item w)) = item\<lparr>StatusUpdatedAt := clock w (reads w)\<rparr>"
  by (cases "redis_errs w")
     (auto simp: UpdateItem_def time_Now_def redis_call_def Let_def split: option.splits)

lemma UpdateItem_trace_eq:
  "trace (snd (snd (UpdateItem item w))) =
     trace w @ [HSet (item\<lparr>StatusUpdatedAt := clock w (reads w)\<rparr>) (fst (redis_call w))]"
  by (cases "redis_errs w")
     (auto simp: UpdateItem_def time_Now_def redis_call_def Let_def split: option.splits)

lemma Killer_body_answered:
  "answered (ID item) (new_events w (processShutdownItems_body ns item w))"
proof (cases "fst (redis_call w)")
  case None
  from Killer_body_ok [OF None, of ns item] obtain rest where
    e: "new_events w (processShutdownItems_body ns item w) =
          HSet (item\<lparr>Status := StatusTerminated, StatusUpdatedAt := clock w (reads w)\<rparr>) None # rest"
    and d: "list_all is_delete rest"
    by blast
  have "list_all (\<lambda>ev. \<not> refused ev)
     (HSet (item\<lparr>Status := StatusTerminated, StatusUpdatedAt := clock w (reads w)\<rparr>) None # rest)"
    using is_delete_quiet [OF d] by simp
  from answered_quiet [OF this, of "ID item" "[]"] show ?thesis
    unfolding e by simp
next
  case (Some e)
  let ?wF = "w\<lparr>reads := Suc (reads w), redis_errs := tl (redis_errs w),
              trace := trace w @
                [HSet (item\<lparr>Status := StatusTerminated, StatusUpdatedAt := clock w (reads w)\<rparr>)
                   (Some e)]\<rparr>"
  let ?itE = "item\<lparr>Status := StatusTerminated, StatusUpdatedAt := clock w (reads w)\<rparr>
               \<lparr>Status := StatusError, ErrorMessage := ''failed to update item status to terminating: '' @ e\<rparr>"
  have b: "processShutdownItems_body ns item w = snd (snd (UpdateItem ?itE ?wF))"
    by (simp add: processShutdownItems_body_def processShutdownItem_fails [OF Some])
  show ?thesis
    by (simp add: b new_events_def UpdateItem_trace_eq)
qed

lemma DeleteItem_trace:
  "trace (snd (DeleteItem ident w)) = trace w @ [HDel ident (fst (redis_call w))]"
  by (cases "redis_errs w")
     (auto simp: DeleteItem_def redis_call_def Let_def split: option.splits)

lemma Collector_body_answered:
  "answered (ID item) (new_events w (cleanupItems_body now item w))"
  by (simp add: cleanupItems_body_eq Let_def new_events_def UpdateItem_trace_eq UpdateItem_item
      UpdateItem_fst DeleteItem_trace)


lemma UpdateItem_dest:
  "UpdateItem item w = (r, it, w') \<Longrightarrow>
   r = fst (redis_call w) \<and> it = item\<lparr>StatusUpdatedAt := clock w (reads w)\<rparr> \<and>
   trace w' = trace w @ [HSet it r]"
  using UpdateItem_fst [of item w] UpdateItem_item [of item w] UpdateItem_trace_eq [of item w]
  by simp

lemma waitForPod_events:
  "ID (fst (snd (waitForPod evs pn wt wn item w))) = ID item \<and>
   fst (waitForPod evs pn wt wn item w) \<noteq> Panicked \<and>
   (\<exists>ys. trace (snd (snd (waitForPod evs pn wt wn item w))) = trace w @ ys \<and> length ys \<le> 1 \<and>
      (fst (waitForPod evs pn wt wn item w) = Returned None \<longrightarrow>
         list_all (\<lambda>ev. \<not> refused ev) ys))"
proof (induction evs pn wt wn item w rule: waitForPod.induct)
  case (1 podName workloadType workloadName item w)
  then show ?case by simp
next
  case (2 e evs podName workloadType workloadName item w)
  then show ?case by simp
next
  case (3 evs podName workloadType workloadName item w)
  then show ?case by simp
next
  case (4 resolved running evs podName workloadType workloadName item w)
  show ?case
  proof (cases "podName = [] \<and> workloadType = ''deployment'' \<and> isl resolved")
    case True
    then show ?thesis using 4(1) by simp
  next
    case False
    let ?p1 = "if podName = [] \<and> workloadType = ''deployment'' then projr resolved else podName"
    show ?thesis
    proof (cases "?p1 = []")
      case True
      then show ?thesis using False 4(2) [OF False refl True] by (auto simp: Let_def)
    next
      case ne: False
      show ?thesis
      proof (cases running)
        case (Inl e)
        then show ?thesis using False ne by (auto simp: Let_def)
      next
        case (Inr b)
        show ?thesis
        proof (cases b)
          case True
          obtain r it w' where u: "UpdateItem (item\<lparr>Status := StatusAvailable\<rparr>) w = (r, it, w')"
            by (cases "UpdateItem (item\<lparr>Status := StatusAvailable\<rparr>) w") auto
          note d = UpdateItem_dest [OF u]
          show ?thesis
          proof (cases r)
            case None
            then show ?thesis using False ne Inr True u d by (auto simp: Let_def)
          next
            case (Some e)
            then show ?thesis using False ne Inr True u d by (auto simp: Let_def)
          qed
        next
          case F: False
          then show ?thesis using False ne Inr 4(3) [OF False refl ne Inr] by (auto simp: Let_def)
        qed
      qed
    qed
  qed
qed


lemma api_create_only: "api_create k ns n w = (r, w1) \<Longrightarrow> only_deletes w w1"
  by (auto simp: api_create_def api_call_def Let_def only_deletes_def
      split: list.splits option.splits if_splits)

lemma GetServiceClusterIP_only: "GetServiceClusterIP ip n ns w = (r, w1) \<Longrightarrow> only_deletes w w1"
  by (auto simp: GetServiceClusterIP_def api_call_def Let_def only_deletes_def
      split: list.splits option.splits if_splits)

lemma EnsureNFSDirectory_only: "EnsureNFSDirectory ns owner w = (r, w1) \<Longrightarrow> only_deletes w w1"
  by (auto simp: EnsureNFSDirectory_def api_call_def Let_def only_deletes_def
      split: list.splits option.splits if_splits)

lemma api_delete_snd_only: "only_deletes w (snd (api_delete k ns n w))"
  using api_delete_only [of k ns n w] by (cases "api_delete k ns n w") simp

lemma CreateDinDStatefulSet_only: "CreateDinDStatefulSet n ns w = (r, w1) \<Longrightarrow> only_deletes w w1"
  unfolding CreateDinDStatefulSet_def
  by (auto split: prod.splits create_result.splits dest!: api_create_only
      intro: only_deletes_trans api_delete_snd_only)

lemma CreateDinDDeployment_only: "CreateDinDDeployment n ns w = (r, w1) \<Longrightarrow> only_deletes w w1"
  unfolding CreateDinDDeployment_def
  by (auto split: prod.splits create_result.splits dest!: api_create_only
      intro: only_deletes_trans api_delete_snd_only)

lemma only_deletes_quiet:
  "only_deletes w w' \<Longrightarrow> \<exists>evs. trace w' = trace w @ evs \<and> list_all (\<lambda>ev. \<not> refused ev) evs"
  using is_delete_quiet by (auto simp: only_deletes_def)


lemma events_shape:
  assumes "ID i' = k" and "tr' = tr @ xs @ ys" and "list_all Q xs" and "length ys \<le> 1"
    and "noerr \<longrightarrow> list_all Q ys"
  shows "ID i' = k \<and>
         (\<exists>xs ys. tr' = tr @ xs @ ys \<and> list_all Q xs \<and> length ys \<le> 1 \<and> (noerr \<longrightarrow> list_all Q ys))"
  using assms by blast

lemma processItem_events:
  "ID (fst (snd (processItem cfg evs item ns w))) = ID item \<and>
   (\<exists>xs ys. trace (snd (snd (processItem cfg evs item ns w))) = trace w @ xs @ ys \<and>
      list_all (\<lambda>ev. \<not> refused ev) xs \<and> length ys \<le> 1 \<and>
      ((\<forall>e. fst (processItem cfg evs item ns w) \<noteq> Returned (Some e)) \<longrightarrow>
         list_all (\<lambda>ev. \<not> refused ev) ys))"
proof (cases "fst (redis_call w)")
  case (Some e)
  note u = UpdateItem_next_fails [OF Some, of "item\<lparr>Status := StatusGenerating\<rparr>"]
  show ?thesis
    by (rule events_shape [where xs = "[]" and ys = "[HSet (item\<lparr>Status := StatusGenerating,
          StatusUpdatedAt := clock w (reads w)\<rparr>) (Some e)]"])
       (simp_all add: processItem_def u)
next
  case None
  let ?item1 = "item\<lparr>Status := StatusGenerating, StatusUpdatedAt := clock w (reads w)\<rparr>"
  let ?g = "HSet ?item1 None"
  let ?w1 = "w\<lparr>reads := Suc (reads w), redis_errs := tl (redis_errs w),
        trace := trace w @ [?g],
        store := AList.update (ID item) ?item1 (store w)\<rparr>"
  have u: "UpdateItem (item\<lparr>Status := StatusGenerating\<rparr>) w = (None, ?item1, ?w1)"
    using UpdateItem_next_ok [OF None, of "item\<lparr>Status := StatusGenerating\<rparr>"] by simp
  show ?thesis
  proof (cases "length (ID item) < 8")
    case True
    have p: "processItem cfg evs item ns w = (Panicked, ?item1, ?w1)"
      using True by (simp add: processItem_def u)
    show ?thesis
      by (rule events_shape [where xs = "[?g]" and ys = "[]"]) (simp_all add: p)
  next
    case long: False
    let ?wn = "''k8s-playground-'' @ take 8 (ID item)"
    show ?thesis
    proof (cases "map_of (dindImageVersions cfg) (K8sVersion item)")
      case nv: None
      let ?err = "unsupportedVersion cfg (K8sVersion item)"
      let ?itE = "?item1\<lparr>Status := StatusError, ErrorMessage := ?err\<rparr>"
      let ?U = "UpdateItem ?itE ?w1"
      have p: "processItem cfg evs item ns w = (Returned (Some ?err), fst (snd ?U), snd (snd ?U))"
        using long nv by (simp add: processItem_def u Let_def split: prod.splits)
      show ?thesis
        by (rule events_shape [where xs = "[?g]" and
              ys = "[HSet (?itE\<lparr>StatusUpdatedAt := clock ?w1 (reads ?w1)\<rparr>) (fst (redis_call ?w1))]"])
           (simp_all add: p UpdateItem_item UpdateItem_trace_eq)
    next
      case (Some imageTag)
      note v = Some
      let ?wt = "if WorkloadType item = [] then ''statefulset'' else WorkloadType item"
      obtain a w2 where g: "GetServiceClusterIP (nfs_cluster_ip cfg) ''k8s-playground-nfs-server'' ns ?w1 = (a, w2)"
        by (cases "GetServiceClusterIP (nfs_cluster_ip cfg) ''k8s-playground-nfs-server'' ns ?w1") auto
      note o2 = GetServiceClusterIP_only [OF g]
      show ?thesis
      proof (cases a)
        case (Inl e)
        have p: "processItem cfg evs item ns w =
            (Returned (Some (''failed to get nfs server service IP: '' @ e)), ?item1, w2)"
          using long v g Inl by (simp add: processItem_def u Let_def)
        from only_deletes_quiet [OF o2] obtain es where
          e: "trace w2 = trace ?w1 @ es" and q: "list_all (\<lambda>ev. \<not> refused ev) es" by blast
        show ?thesis
          by (rule events_shape [where xs = "?g # es" and ys = "[]"]) (simp_all add: p e q)
      next
        case (Inr ip)
        note ai = Inr
        obtain b w3 where n: "EnsureNFSDirectory ns (Owner item) w2 = (b, w3)"
          by (cases "EnsureNFSDirectory ns (Owner item) w2") auto
        note o3 = only_deletes_trans [OF o2 EnsureNFSDirectory_only [OF n]]
        show ?thesis
        proof (cases b)
          case (Some e)
          have p: "processItem cfg evs item ns w =
              (Returned (Some (''failed to ensure nfs directory for owner '' @ Owner item @ '': '' @ e)),
               ?item1, w3)"
            using long v g ai n Some by (simp add: processItem_def u Let_def)
          from only_deletes_quiet [OF o3] obtain es where
            e: "trace w3 = trace ?w1 @ es" and q: "list_all (\<lambda>ev. \<not> refused ev) es" by blast
          show ?thesis
            by (rule events_shape [where xs = "?g # es" and ys = "[]"]) (simp_all add: p e q)
        next
          case None
          let ?cr = "if ?wt = ''deployment'' then CreateDinDDeployment ?wn ns w3
                     else CreateDinDStatefulSet ?wn ns w3"
          let ?img = "dindImageBaseRepository cfg @ '':'' @ imageTag"
          have p0: "processItem cfg evs item ns w =
              (case ?cr of
                 (Inl e, w4) \<Rightarrow>
                   (Returned (Some (''failed to create DinD workload with image '' @ ?img @ '': '' @ e)),
                    ?item1, w4)
               | (Inr created, w4) \<Rightarrow>
                   waitForPod evs (if ?wt = ''deployment'' then [] else created) ?wt ?wn
                     (?item1\<lparr>PodID := ?wn\<rparr>) w4)"
            using long v g ai n None
            by (simp add: processItem_def u Let_def split: prod.splits sum.splits)
          obtain c w4 where cr: "?cr = (c, w4)"
            by (cases ?cr) auto
          have "only_deletes w3 w4"
          proof (cases "?wt = ''deployment''")
            case True
            then have "?cr = CreateDinDDeployment ?wn ns w3" by (rule if_P)
            then have "CreateDinDDeployment ?wn ns w3 = (c, w4)" using cr by (rule subst)
            then show ?thesis by (rule CreateDinDDeployment_only)
          next
            case False
            then have "?cr = CreateDinDStatefulSet ?wn ns w3" by (rule if_not_P)
            then have "CreateDinDStatefulSet ?wn ns w3 = (c, w4)" using cr by (rule subst)
            then show ?thesis by (rule CreateDinDStatefulSet_only)
          qed
          note o4 = only_deletes_trans [OF o3 this]
          from only_deletes_quiet [OF o4] obtain es where
            e: "trace w4 = trace ?w1 @ es" and q: "list_all (\<lambda>ev. \<not> refused ev) es" by blast
          show ?thesis
          proof (cases c)
            case (Inl e')
            have p: "processItem cfg evs item ns w =
                (Returned (Some (''failed to create DinD workload with image '' @ ?img @ '': '' @ e')),
                 ?item1, w4)"
              by (simp only: p0 cr Inl prod.case sum.case)
            show ?thesis
              by (rule events_shape [where xs = "?g # es" and ys = "[]"]) (simp_all add: p e q)
          next
            case (Inr created)
            let ?W = "waitForPod evs (if ?wt = ''deployment'' then [] else created) ?wt ?wn
                        (?item1\<lparr>PodID := ?wn\<rparr>) w4"
            have p: "processItem cfg evs item ns w = ?W"
              by (simp only: p0 cr Inr prod.case sum.case)
            note wf = waitForPod_events [of evs "if ?wt = ''deployment'' then [] else created" ?wt ?wn
                "?item1\<lparr>PodID := ?wn\<rparr>" w4]
            from wf obtain ys where
              y: "trace (snd (snd ?W)) = trace w4 @ ys" and l: "length ys \<le> 1"
              and r: "fst ?W = Returned None \<longrightarrow> list_all (\<lambda>ev. \<not> refused ev) ys"
              by blast
            have np: "fst ?W \<noteq> Panicked" using wf by blast
            have i: "ID (fst (snd (processItem cfg evs item ns w))) = ID item"
              unfolding p using wf by simp
            have t: "trace (snd (snd (processItem cfg evs item ns w))) = trace w @ (?g # es) @ ys"
              unfolding p y e by simp
            have ne: "(\<forall>e. fst (processItem cfg evs item ns w) \<noteq> Returned (Some e)) \<longrightarrow>
                list_all (\<lambda>ev. \<not> refused ev) ys"
            proof
              assume a: "\<forall>e. fst (processItem cfg evs item ns w) \<noteq> Returned (Some e)"
              have "fst ?W = Returned None"
              proof (cases "fst ?W")
                case Panicked
                then show ?thesis using np by simp
              next
                case (Returned x)
                then show ?thesis using a unfolding p by (cases x) auto
              qed
              then show "list_all (\<lambda>ev. \<not> refused ev) ys" using r by blast
            qed
            have qq: "list_all (\<lambda>ev. \<not> refused ev) (?g # es)" using q by simp
            show ?thesis
              by (rule events_shape [OF i t qq l ne])
          qed
        qed
      qed
    qed
  qed
qed


lemma Generator_body_answered:
  "answered (ID item) (new_events w (snd (processPendingItems_body cfg evs_of ns item w)))"
proof -
  let ?R = "processItem cfg (evs_of (ID item)) item ns w"
  obtain x it w1 where R: "?R = (x, it, w1)" by (cases ?R) auto
  from processItem_events [of cfg "evs_of (ID item)" item ns w] R obtain xs ys where
    i: "ID it = ID item" and t: "trace w1 = trace w @ xs @ ys"
    and q: "list_all (\<lambda>ev. \<not> refused ev) xs" and l: "length ys \<le> 1"
    and n: "(\<forall>e. x \<noteq> Returned (Some e)) \<longrightarrow> list_all (\<lambda>ev. \<not> refused ev) ys"
    by auto
  show ?thesis
  proof (cases "\<exists>e. x = Returned (Some e)")
    case True
    then obtain e where x: "x = Returned (Some e)" by blast
    let ?itE = "it\<lparr>Status := StatusError, ErrorMessage := e\<rparr>"
    have b: "snd (processPendingItems_body cfg evs_of ns item w) = snd (snd (UpdateItem ?itE w1))"
      by (simp add: processPendingItems_body_def R x)
    have ev: "new_events w (snd (processPendingItems_body cfg evs_of ns item w)) =
        xs @ (ys @ [HSet (?itE\<lparr>StatusUpdatedAt := clock w1 (reads w1)\<rparr>) (fst (redis_call w1))])"
      by (simp add: b new_events_def UpdateItem_trace_eq t)
    have "answered (ID item) (ys @ [HSet (?itE\<lparr>StatusUpdatedAt := clock w1 (reads w1)\<rparr>) (fst (redis_call w1))])"
      by (rule answered_tail [OF l]) (simp_all add: i)
    then show ?thesis
      unfolding ev using answered_quiet [OF q] by simp
  next
    case False
    then have qy: "list_all (\<lambda>ev. \<not> refused ev) ys" using n by blast
    have b: "snd (processPendingItems_body cfg evs_of ns item w) = w1"
    proof (cases x)
      case Panicked
      then show ?thesis by (simp add: processPendingItems_body_def R)
    next
      case (Returned r)
      then have "r = None" using False by (cases r) auto
      then show ?thesis using Returned by (simp add: processPendingItems_body_def R)
    qed
    have ev: "new_events w (snd (processPendingItems_body cfg evs_of ns item w)) = (xs @ ys) @ []"
      by (simp add: b new_events_def t)
    have "list_all (\<lambda>ev. \<not> refused ev) (xs @ ys)" using q qy by simp
    from answered_quiet [OF this, of "ID item" "[]"] show ?thesis
      unfolding ev by simp
  qed
qed

lemma redis_call_after:
  "redis_errs w = r # rs \<Longrightarrow> fst (redis_call w) = r"
  by (simp add: redis_call_def)

lemma Killer_first_write_events:
  assumes f: "redis_errs w = Some e # rs"
  shows "new_events w (processShutdownItems_body ns item w) =
      [HSet (item\<lparr>Status := StatusTerminated, StatusUpdatedAt := clock w (reads w)\<rparr>) (Some e),
       HSet (item\<lparr>Status := StatusError,
               ErrorMessage := ''failed to update item status to terminating: '' @ e,
               StatusUpdatedAt := clock w (Suc (reads w))\<rparr>)
            (case rs of [] \<Rightarrow> None | r # rs' \<Rightarrow> r)]"
proof -
  note u = UpdateItem_fails_then [OF f, of "item\<lparr>Status := StatusTerminated\<rparr>"]
  show ?thesis
    by (simp add: processShutdownItems_body_def processShutdownItem_def u new_events_def
        UpdateItem_trace_eq redis_call_def split: list.splits)
qed

lemma Generator_first_write_events:
  assumes f: "redis_errs w = Some e # rs"
  shows "new_events w (snd (processPendingItems_body cfg evs_of ns item w)) =
      [HSet (item\<lparr>Status := StatusGenerating, StatusUpdatedAt := clock w (reads w)\<rparr>) (Some e),
       HSet (item\<lparr>Status := StatusError,
               ErrorMessage := ''failed to update item status to generating: '' @ e,
               StatusUpdatedAt := clock w (Suc (reads w))\<rparr>)
            (case rs of [] \<Rightarrow> None | r # rs' \<Rightarrow> r)]"
proof -
  note u = UpdateItem_fails_then [OF f, of "item\<lparr>Status := StatusGenerating\<rparr>"]
  show ?thesis
    by (simp add: processPendingItems_body_def processItem_def u new_events_def
        UpdateItem_trace_eq redis_call_def split: list.splits)
qed

lemma Collector_first_write_events:
  assumes f: "redis_errs w = Some e # rs"
    and c: "Status item \<notin> {StatusShutdown, StatusTerminated, StatusError}"
       "ExpiresAt item < clock w (reads w)"
  shows "new_events w (cleanupItems_body now item w) =
      [HSet (item\<lparr>Status := StatusShutdown, StatusUpdatedAt := clock w (Suc (reads w))\<rparr>) (Some e),
       HSet (item\<lparr>Status := StatusError,
               ErrorMessage := ''Failed to mark for shutdown during collection'',
               StatusUpdatedAt := clock w (Suc (Suc (reads w)))\<rparr>)
            (case rs of [] \<Rightarrow> None | r # rs' \<Rightarrow> r)]"
proof -
  let ?w1 = "w\<lparr>reads := Suc (reads w)\<rparr>"
  have f1: "redis_errs ?w1 = Some e # rs" using f by simp
  note u = UpdateItem_fails_then [OF f1, of "item\<lparr>Status := StatusShutdown\<rparr>"]
  show ?thesis
    using c
    by (simp add: cleanupItems_body_eq Let_def u new_events_def UpdateItem_trace_eq redis_call_def
        split: list.splits)
qed

lemma found_by_status:
  assumes "item \<in> snd ` set (store w)" and "Status item = s"
    and "store w2 = store w" and "fst (redis_call w2) = None"
  shows "found_by (GetItemsByStatus s) item w2"
  using assms
  by (cases "redis_errs w2")
     (auto simp: found_by_def GetItemsByStatus_def GetAllItems_def redis_call_def Let_def)

lemma found_by_all:
  assumes "item \<in> snd ` set (store w)"
    and "store w2 = store w" and "fst (redis_call w2) = None"
  shows "found_by GetAllItems item w2"
  using assms
  by (cases "redis_errs w2")
     (auto simp: found_by_def GetAllItems_def redis_call_def Let_def)


lemma Collector_delete_refused:
  assumes f: "redis_errs w = Some e # rs"
    and c: "Status item = StatusTerminated" "terminatedGracePeriod < now - StatusUpdatedAt item"
  shows "new_events w (cleanupItems_body now item w) = [HDel (ID item) (Some e)] \<and>
         store (cleanupItems_body now item w) = store w"
  using f c
  by (simp add: cleanupItems_body_eq new_events_def DeleteItem_def redis_call_def Let_def)

text \<open>
  C6 (amended). When a write that a control loop makes for a record is refused by the queue,
  the next thing the loop does is an attempt to write that record with status \<open>error\<close>;
  only a refused write that already carries status \<open>error\<close> can be the last thing the loop
  does for the record (the first three conjuncts, for every world \<open>v\<close>). When the first
  write of the loop for the record is refused (the Killer's write of \<open>terminated\<close>, the
  Generator's write of \<open>generating\<close>, the Collector's write of \<open>shutdown\<close> for an expired
  record), the loop makes exactly one more attempt, the write of status \<open>error\<close> with its
  message. If that write is refused as well, the stored table is as before, and a later
  read of the queue that goes through on that table returns the record again, with the
  status that made the loop select it (the Collector collects it again at every reading of
  the clock after its expiry). If the second write goes through, the stored record has
  status \<open>error\<close> and the message. A refused deletion of a terminated record by the
  Collector is followed by nothing, and the table is as before.
\<close>

theorem Loops_write_failure:
  assumes "redis_errs w = Some e # rs"
  shows
   "answered (ID item) (new_events v (processShutdownItems_body ns item v)) \<and>
    answered (ID item) (new_events v (snd (processPendingItems_body cfg evs_of ns item v))) \<and>
    answered (ID item) (new_events v (cleanupItems_body now item v)) \<and>
    new_events w (processShutdownItems_body ns item w) =
      [HSet (item\<lparr>Status := StatusTerminated, StatusUpdatedAt := clock w (reads w)\<rparr>) (Some e),
       HSet (item\<lparr>Status := StatusError,
               ErrorMessage := ''failed to update item status to terminating: '' @ e,
               StatusUpdatedAt := clock w (Suc (reads w))\<rparr>)
            (case rs of [] \<Rightarrow> None | r # rs' \<Rightarrow> r)] \<and>
    new_events w (snd (processPendingItems_body cfg evs_of ns item w)) =
      [HSet (item\<lparr>Status := StatusGenerating, StatusUpdatedAt := clock w (reads w)\<rparr>) (Some e),
       HSet (item\<lparr>Status := StatusError,
               ErrorMessage := ''failed to update item status to generating: '' @ e,
               StatusUpdatedAt := clock w (Suc (reads w))\<rparr>)
            (case rs of [] \<Rightarrow> None | r # rs' \<Rightarrow> r)] \<and>
    (Status item \<notin> {StatusShutdown, StatusTerminated, StatusError} \<and>
     ExpiresAt item < clock w (reads w) \<longrightarrow>
       new_events w (cleanupItems_body now item w) =
         [HSet (item\<lparr>Status := StatusShutdown, StatusUpdatedAt := clock w (Suc (reads w))\<rparr>) (Some e),
          HSet (item\<lparr>Status := StatusError,
                  ErrorMessage := ''Failed to mark for shutdown during collection'',
                  StatusUpdatedAt := clock w (Suc (Suc (reads w)))\<rparr>)
               (case rs of [] \<Rightarrow> None | r # rs' \<Rightarrow> r)]) \<and>
    (Status item = StatusTerminated \<and> terminatedGracePeriod < now - StatusUpdatedAt item \<longrightarrow>
       new_events w (cleanupItems_body now item w) = [HDel (ID item) (Some e)] \<and>
       store (cleanupItems_body now item w) = store w) \<and>
    ((\<exists>e2 rs'. rs = Some e2 # rs') \<longrightarrow>
       store (processShutdownItems_body ns item w) = store w \<and>
       store (snd (processPendingItems_body cfg evs_of ns item w)) = store w \<and>
       (Status item \<notin> {StatusShutdown, StatusTerminated, StatusError} \<and>
        ExpiresAt item < clock w (reads w) \<longrightarrow>
          store (cleanupItems_body now item w) = store w) \<and>
       (item \<in> snd ` set (store w) \<longrightarrow>
          (\<forall>w2. fst (redis_call w2) = None \<longrightarrow>
             (Status item = StatusShutdown \<and> store w2 = store (processShutdownItems_body ns item w) \<longrightarrow>
                found_by (GetItemsByStatus StatusShutdown) item w2) \<and>
             (Status item = StatusPending \<and>
              store w2 = store (snd (processPendingItems_body cfg evs_of ns item w)) \<longrightarrow>
                found_by (GetItemsByStatus StatusPending) item w2) \<and>
             (Status item \<notin> {StatusShutdown, StatusTerminated, StatusError} \<and>
              ExpiresAt item < clock w (reads w) \<and>
              store w2 = store (cleanupItems_body now item w) \<longrightarrow>
                found_by GetAllItems item w2 \<and>
                fst (ShouldBeCollected item w2) = (ExpiresAt item < clock w2 (reads w2)))))) \<and>
    (rs = [] \<or> (\<exists>rs'. rs = None # rs') \<longrightarrow>
       map_of (store (processShutdownItems_body ns item w)) (ID item) =
         Some (item\<lparr>Status := StatusError,
                 ErrorMessage := ''failed to update item status to terminating: '' @ e,
                 StatusUpdatedAt := clock w (Suc (reads w))\<rparr>) \<and>
       map_of (store (snd (processPendingItems_body cfg evs_of ns item w))) (ID item) =
         Some (item\<lparr>Status := StatusError,
                 ErrorMessage := ''failed to update item status to generating: '' @ e,
                 StatusUpdatedAt := clock w (Suc (reads w))\<rparr>) \<and>
       (Status item \<notin> {StatusShutdown, StatusTerminated, StatusError} \<and>
        ExpiresAt item < clock w (reads w) \<longrightarrow>
          map_of (store (cleanupItems_body now item w)) (ID item) =
            Some (item\<lparr>Status := StatusError,
                    ErrorMessage := ''Failed to mark for shutdown during collection'',
                    StatusUpdatedAt := clock w (Suc (Suc (reads w)))\<rparr>)))"
proof -
  note K = Killer_write_fails [OF assms, of ns item]
  note G = Generator_write_fails [OF assms, of cfg evs_of ns item]
  have C: "Status item \<notin> {StatusShutdown, StatusTerminated, StatusError} \<and>
        ExpiresAt item < clock w (reads w) \<longrightarrow>
      ((\<exists>e2 rs'. rs = Some e2 # rs') \<longrightarrow> store (cleanupItems_body now item w) = store w) \<and>
      (rs = [] \<or> (\<exists>rs'. rs = None # rs') \<longrightarrow>
         map_of (store (cleanupItems_body now item w)) (ID item) =
           Some (item\<lparr>Status := StatusError,
                   ErrorMessage := ''Failed to mark for shutdown during collection'',
                   StatusUpdatedAt := clock w (Suc (Suc (reads w)))\<rparr>))"
    using Collector_write_fails [OF assms, of item now] by blast
  have EC: "Status item \<notin> {StatusShutdown, StatusTerminated, StatusError} \<and>
     ExpiresAt item < clock w (reads w) \<longrightarrow>
       new_events w (cleanupItems_body now item w) =
         [HSet (item\<lparr>Status := StatusShutdown, StatusUpdatedAt := clock w (Suc (reads w))\<rparr>) (Some e),
          HSet (item\<lparr>Status := StatusError,
                  ErrorMessage := ''Failed to mark for shutdown during collection'',
                  StatusUpdatedAt := clock w (Suc (Suc (reads w)))\<rparr>)
               (case rs of [] \<Rightarrow> None | r # rs' \<Rightarrow> r)]"
    using Collector_first_write_events [OF assms, of item now] by blast
  have S: "Status item \<notin> {StatusShutdown, StatusTerminated, StatusError} \<longrightarrow>
      (\<forall>w2. fst (ShouldBeCollected item w2) = (ExpiresAt item < clock w2 (reads w2)))"
    by (simp add: ShouldBeCollected_eq)
  have F: "item \<in> snd ` set (store w) \<longrightarrow>
      (\<forall>w2 s. fst (redis_call w2) = None \<and> store w2 = store w \<longrightarrow>
         (Status item = s \<longrightarrow> found_by (GetItemsByStatus s) item w2) \<and>
         found_by GetAllItems item w2)"
    using found_by_status [of item w] found_by_all [of item w] by blast
  have D: "Status item = StatusTerminated \<and> terminatedGracePeriod < now - StatusUpdatedAt item \<longrightarrow>
       new_events w (cleanupItems_body now item w) = [HDel (ID item) (Some e)] \<and>
       store (cleanupItems_body now item w) = store w"
    using Collector_delete_refused [OF assms, of item now] by blast
  show ?thesis
    using K G C EC D S F Killer_body_answered [of item v ns]
      Generator_body_answered [of item v cfg evs_of ns]
      Collector_body_answered [of item v now]
      Killer_first_write_events [OF assms, of ns item]
      Generator_first_write_events [OF assms, of cfg evs_of ns item]
    by (simp (no_asm_simp))
qed


theorem Loops_write_failure_witness:
  "new_events world1_redis_down (processShutdownItems_body ''default'' item1 world1_redis_down) =
     [HSet (item1\<lparr>Status := StatusTerminated, StatusUpdatedAt := 1000\<rparr>) (Some ''i/o timeout''),
      HSet (item1\<lparr>Status := StatusError,
              ErrorMessage := ''failed to update item status to terminating: i/o timeout'',
              StatusUpdatedAt := 1001\<rparr>) (Some ''i/o timeout'')] \<and>
   answered ''0a1b2c3d-0000''
     (new_events world1_redis_down (processShutdownItems_body ''default'' item1 world1_redis_down)) \<and>
   store (processShutdownItems_body ''default'' item1 world1_redis_down) = store world1_redis_down \<and>
   found_by (GetItemsByStatus StatusShutdown) item1
     (processShutdownItems_body ''default'' item1 world1_redis_down) \<and>
   map_of (store (processShutdownItems_body ''default'' item1 world1_redis_flaky)) ''0a1b2c3d-0000'' =
     Some (item1\<lparr>Status := StatusError,
             ErrorMessage := ''failed to update item status to terminating: i/o timeout'',
             StatusUpdatedAt := 1001\<rparr>)"
proof -
  have d: "redis_errs world1_redis_down = Some ''i/o timeout'' # [Some ''i/o timeout'']"
    by (simp add: world1_redis_down_def world1_def world0_def)
  have f: "redis_errs world1_redis_flaky = Some ''i/o timeout'' # []"
    by (simp add: world1_redis_flaky_def world1_def world0_def)
  have c: "ID item1 = ''0a1b2c3d-0000''"
    "clock world1_redis_flaky (Suc (reads world1_redis_flaky)) = 1001"
    "clock world1_redis_down (reads world1_redis_down) = 1000"
    "clock world1_redis_down (Suc (reads world1_redis_down)) = 1001"
    "Status item1 = StatusShutdown"
    by (simp_all add: world1_redis_flaky_def world1_redis_down_def world1_def world0_def
        item1_def item0_def)
  have m: "item1 \<in> snd ` set (store world1_redis_down)"
    by (simp add: world1_redis_down_def world1_def world0_def)
  have r: "fst (redis_call (processShutdownItems_body ''default'' item1 world1_redis_down)) = None"
    by (simp add: processShutdownItems_body_def processShutdownItem_def UpdateItem_def
        time_Now_def redis_call_def Let_def world1_redis_down_def world1_def world0_def)
  note t1 = Loops_write_failure [OF d, where item = item1 and ns = "''default''"
      and v = world1_redis_down]
  note t2 = Loops_write_failure [OF f, where item = item1 and ns = "''default''"]
  have s: "store (processShutdownItems_body ''default'' item1 world1_redis_down) =
      store world1_redis_down"
    using t1 by blast
  have "found_by (GetItemsByStatus StatusShutdown) item1
     (processShutdownItems_body ''default'' item1 world1_redis_down)"
    using t1 m r c(5) s by blast
  then show ?thesis
    using t1 t2 c s by simp
qed

text \<open>
  C6 as stated fails: on a Collector tick whose first write is refused and whose second
  goes through, the stored record of the expired reservation changes to status \<open>error\<close>.
\<close>

theorem Loops_write_failure_counterexample:
  "map_of (store world2_redis_flaky) ''0a1b2c3d-0000'' = Some item0 \<and>
   Status item0 = StatusAvailable \<and>
   redis_errs world2_redis_flaky = [None, Some ''i/o timeout''] \<and>
   map_of (store (snd (cleanupItems world2_redis_flaky))) ''0a1b2c3d-0000'' =
     Some (item0\<lparr>Status := StatusError,
             ErrorMessage := ''Failed to mark for shutdown during collection'',
             StatusUpdatedAt := 1003\<rparr>)"
  by (simp add: cleanupItems_def GetAllItems_def redis_call_def time_Now_def Let_def
      cleanupItems_body_def ShouldBeCollected_def IsExpired_def UpdateItem_def
      world2_redis_flaky_def world2_def world0_def item2_def item0_def)

section \<open>Properties of the Generator\<close>





section \<open>Properties of the Gateway handlers\<close>

lemma GetItem_ok:
  "fst (redis_call w) = None \<Longrightarrow>
   GetItem ident w =
     ((case map_of (store w) ident of None \<Rightarrow> Inl ''item not found'' | Some item \<Rightarrow> Inr item),
      w\<lparr>redis_errs := tl (redis_errs w)\<rparr>)"
  by (cases w) (auto simp: GetItem_def redis_call_def Let_def split: list.splits option.splits)

text \<open>
  C4 (amended). For each of the five resource-bound requests, once the handler has loaded the
  record and the record's owner differs from the request principal, the reply is 403
  Forbidden; only a rename request whose body does not pass the binding (the body does not
  parse, the display name is missing or empty, or it has more than 50 code points) is
  answered 400, with the error of the binding, before the record is looked at. In every case
  the stored table is left as it was and no write is attempted.
\<close>

theorem Handlers_forbidden:
  assumes "fst (redis_call w) = None"
    and "map_of (store w) ident = Some item"
    and "Owner item \<noteq> ownerID"
  shows "((\<forall>body. req = Rename body \<longrightarrow> \<not> isl (bindDisplayName env body)) \<longrightarrow>
            fst (handle env req ownerID ident w) =
              Reply 403 ''You are not the owner of this environment'') \<and>
         (\<forall>body. req = Rename body \<and> isl (bindDisplayName env body) \<longrightarrow>
            fst (handle env req ownerID ident w) =
              Reply 400 (''Invalid request: '' @ projl (bindDisplayName env body))) \<and>
         (\<forall>name. isl (bindDisplayName env (Inr name)) = (name = [] \<or> 50 < runeCount env name)) \<and>
         store (snd (handle env req ownerID ident w)) = store w \<and>
         trace (snd (handle env req ownerID ident w)) = trace w"
proof (cases req)
  case Destroy
  then show ?thesis
    using assms by (simp add: destroyEnvironment_def GetItem_ok bindDisplayName_def)
next
  case (Rename body)
  have b: "\<forall>name. isl (bindDisplayName env (Inr name)) = (name = [] \<or> 50 < runeCount env name)"
    by (simp add: bindDisplayName_def)
  show ?thesis
    using assms Rename
    by (cases "bindDisplayName env body")
       (simp_all add: updateEnvironmentDisplayName_def GetItem_ok b)
next
  case ServicesOf
  then show ?thesis
    using assms by (simp add: getEnvironmentServices_def GetItem_ok bindDisplayName_def)
next
  case Attach
  then show ?thesis
    using assms by (simp add: connectEnvironment_def GetItem_ok bindDisplayName_def)
next
  case (Proxy path port)
  then show ?thesis
    using assms by (simp add: proxyToPod_def GetItem_ok bindDisplayName_def)
qed

theorem Handlers_forbidden_witness:
  "fst (handle env0 ServicesOf ''bob'' ''0a1b2c3d-0000'' world_alice) =
     Reply 403 ''You are not the owner of this environment'' \<and>
   fst (handle env0 Destroy ''bob'' ''0a1b2c3d-0000'' world_alice) =
     Reply 403 ''You are not the owner of this environment'' \<and>
   fst (handle env0 (Rename (Inr ''mine'')) ''bob'' ''0a1b2c3d-0000'' world_alice) =
     Reply 403 ''You are not the owner of this environment'' \<and>
   length name_26_runes = 52 \<and> runeCount env0 name_26_runes = 26 \<and>
   fst (handle env0 (Rename (Inr name_26_runes)) ''bob'' ''0a1b2c3d-0000'' world_alice) =
     Reply 403 ''You are not the owner of this environment'' \<and>
   store (snd (handle env0 Destroy ''bob'' ''0a1b2c3d-0000'' world_alice)) = store world_alice"
proof -
  have r: "fst (redis_call world_alice) = None"
    by (simp add: redis_call_def world_alice_def world0_def)
  have m: "map_of (store world_alice) ''0a1b2c3d-0000'' = Some item0"
    by (simp add: world_alice_def world0_def)
  have o: "Owner item0 \<noteq> ''bob''"
    by (simp add: item0_def)
  have l: "length name_26_runes = 52"
    unfolding name_26_runes_def by code_simp
  have c: "runeCount env0 name_26_runes = 26"
    unfolding env0_def name_26_runes_def by code_simp
  have n: "name_26_runes \<noteq> []"
    using l by auto
  show ?thesis
    using Handlers_forbidden [OF r m o, of ServicesOf env0]
      Handlers_forbidden [OF r m o, of Destroy env0]
      Handlers_forbidden [OF r m o, of "Rename (Inr ''mine'')" env0]
      Handlers_forbidden [OF r m o, of "Rename (Inr name_26_runes)" env0]
      l c n
    by (simp add: bindDisplayName_def env0_def RuneCountInString_def runeSize_def)
qed

text \<open>
  C4 as stated fails: Bob's rename of Alice's reservation with an empty name, or with a name
  of 51 letters, is answered 400 with the validator's error, and while the queue backend
  refuses the read Bob's requests are answered 500 or 404.
\<close>

theorem Handlers_forbidden_counterexample:
  "map_of (store world_alice) ''0a1b2c3d-0000'' = Some item0 \<and> Owner item0 \<noteq> ''bob'' \<and>
   fst (handle env0 (Rename (Inr [])) ''bob'' ''0a1b2c3d-0000'' world_alice) =
     Reply 400 (''Invalid request: '' @ validationError env0 ''required'') \<and>
   fst (handle env0 (Rename (Inr name_51_runes)) ''bob'' ''0a1b2c3d-0000'' world_alice) =
     Reply 400 (''Invalid request: '' @ validationError env0 ''max'') \<and>
   map_of (store world_alice_redis_down) ''0a1b2c3d-0000'' = Some item0 \<and>
   fst (handle env0 ServicesOf ''bob'' ''0a1b2c3d-0000'' world_alice_redis_down) =
     Reply 500 ''Failed to retrieve environment details'' \<and>
   fst (handle env0 Attach ''bob'' ''0a1b2c3d-0000'' world_alice_redis_down) =
     Reply 404 ''Environment not found''"
proof -
  have c: "runeCount env0 name_51_runes = 51"
    unfolding env0_def name_51_runes_def by code_simp
  have n: "name_51_runes \<noteq> []"
    unfolding name_51_runes_def by code_simp
  show ?thesis
    using c n
    by (simp add: updateEnvironmentDisplayName_def bindDisplayName_def getEnvironmentServices_def
        connectEnvironment_def GetItem_def redis_call_def
        world_alice_redis_down_def world_alice_def world0_def item0_def)
qed

end
